theory Spec2Isabelle
  imports Complex_Main "HOL-Library.Multiset"
begin

section \<open>Python values shared by both modules\<close>

text \<open>
  Exceptions are values: a computation of the source that can raise has the result type
  \<open>error + 'a\<close>, with \<open>Inl\<close> for the exception that propagates. Floating point numbers
  are idealised as \<open>real\<close>: rounding, infinities other than the initial
  \<open>float('inf')\<close> of the training loop, and NaN are not represented.
\<close>

datatype error = IndexError | ValueError | TypeError | NameError

definition py_index :: "'a list \<Rightarrow> int \<Rightarrow> error + 'a" where
  \<comment> \<open>\<open>xs[i]\<close>: a negative index counts from the end, an index out of range raises.\<close>
  "py_index xs i =
     (if 0 \<le> i \<and> i < int (length xs) then Inr (xs ! nat i)
      else if i < 0 \<and> - int (length xs) \<le> i then Inr (xs ! nat (int (length xs) + i))
      else Inl IndexError)"

section \<open>models/mlp.py\<close>

subsection \<open>MLPModule.__init__\<close>

text \<open>
  The torch layer constructors are recorded as descriptors of the layer they build, in the
  order in which they are appended to \<open>layers\<close>. \<open>Linear n m\<close> owns one weight matrix
  mapping \<open>n\<close> input features to \<open>m\<close> output features.
  What torch itself checks of their arguments (a dropout rate outside the unit interval,
  a negative size) is not modelled.
\<close>

datatype layer = Linear int int | BatchNorm1d int | ReLU | Dropout real

definition hidden_block :: "bool \<Rightarrow> real \<Rightarrow> int \<Rightarrow> int \<Rightarrow> layer list" where
  \<comment> \<open>The four appends shared by lines 34-38 and lines 41-45.\<close>
  "hidden_block do_batch_norm dropout_rate n_in n_out =
     [Linear n_in n_out] @ (if do_batch_norm then [BatchNorm1d n_out] else [])
       @ [ReLU, Dropout dropout_rate]"

fun hidden_loop :: "bool \<Rightarrow> real \<Rightarrow> int list \<Rightarrow> nat list \<Rightarrow> layer list \<Rightarrow> error + layer list" where
  \<comment> \<open>\<open>for i in range(1, len(hidden_sizes))\<close>\<close>
  "hidden_loop do_batch_norm dropout_rate hidden_sizes [] layers = Inr layers"
| "hidden_loop do_batch_norm dropout_rate hidden_sizes (i # rest) layers =
     (case py_index hidden_sizes (int i - 1) of Inl e \<Rightarrow> Inl e
      | Inr n_in \<Rightarrow>
     (case py_index hidden_sizes (int i) of Inl e \<Rightarrow> Inl e
      | Inr n_out \<Rightarrow>
        hidden_loop do_batch_norm dropout_rate hidden_sizes rest
          (layers @ hidden_block do_batch_norm dropout_rate n_in n_out)))"

definition MLPModule_init :: "int list \<Rightarrow> int \<Rightarrow> real \<Rightarrow> int \<Rightarrow> bool \<Rightarrow> error + layer list" where
  "MLPModule_init hidden_sizes input_size dropout_rate output_size do_batch_norm =
     (case (if length hidden_sizes > 0
            then (case py_index hidden_sizes 0 of Inl e \<Rightarrow> Inl e
                  | Inr h0 \<Rightarrow> Inr (hidden_block do_batch_norm dropout_rate input_size h0))
            else Inr [])
      of Inl e \<Rightarrow> Inl e
      | Inr layers1 \<Rightarrow>
     (case hidden_loop do_batch_norm dropout_rate hidden_sizes [1..<length hidden_sizes] layers1
      of Inl e \<Rightarrow> Inl e
      | Inr layers2 \<Rightarrow>
     (case py_index hidden_sizes (- 1) of Inl e \<Rightarrow> Inl e
      | Inr h_last \<Rightarrow> Inr (layers2 @ [Linear h_last output_size]))))"

subsection \<open>MLP.get_loss_fn\<close>

text \<open>
  The returned \<open>BCEWithLogitsLoss\<close> is determined by its \<open>pos_weight\<close>. The model keeps
  the way the weight was obtained: a literal tensor, or the quotient computed on line 168.
  Keeping the quotient apart matters, since HOL's \<open>x / 0\<close> is \<open>0\<close>.
\<close>

datatype pos_weight = Literal real | Divided real real

fun pos_weight_value :: "pos_weight \<Rightarrow> real" where
  "pos_weight_value (Literal c) = c"
| "pos_weight_value (Divided a b) = a / b"

fun performs_division :: "pos_weight \<Rightarrow> bool" where
  "performs_division (Literal c) = False"
| "performs_division (Divided a b) = True"

definition get_loss_fn :: "bool \<Rightarrow> real \<Rightarrow> pos_weight" where
  "get_loss_fn class_weight mean_y =
     (if class_weight then
        (if mean_y = 0 then Literal 0
         else if mean_y = 1 then Literal 1
         else Divided (1 - mean_y) mean_y)
      else Literal 1)"

subsection \<open>MLP.train\<close>

text \<open>
  The epoch loop of \<open>train\<close>. The mini-batch updates change the network only; what the
  loop control reads of them is the value that \<open>validate\<close> returns after each epoch. The
  loop therefore runs over \<open>val_losses\<close>, whose k-th entry is the validation loss after the
  k-th epoch and whose length is \<open>n_epochs\<close> (a negative \<open>n_epochs\<close> gives an empty range,
  like 0). \<open>epochs_run\<close> and \<open>stopped_early\<close> are bookkeeping of the model: the number
  of loop bodies executed and whether the \<open>break\<close> on line 247 was taken.
\<close>

datatype loss = Infinity | Finite real

fun loss_gt :: "real \<Rightarrow> loss \<Rightarrow> bool" where
  \<comment> \<open>\<open>val_loss > prev_val_loss\<close>\<close>
  "loss_gt v Infinity = False"
| "loss_gt v (Finite p) = (v > p)"

record train_state =
  prev_val_loss :: loss
  n_no_improvement :: int
  epochs_run :: nat
  stopped_early :: bool

definition initial_state :: train_state where
  "initial_state =
     \<lparr>prev_val_loss = Infinity, n_no_improvement = 0, epochs_run = 0, stopped_early = False\<rparr>"

definition epoch_body :: "bool \<Rightarrow> real \<Rightarrow> train_state \<Rightarrow> train_state" where
  \<comment> \<open>Lines 229-245: one epoch up to, not including, the test on line 246.\<close>
  "epoch_body early_stopping val_loss s =
     (let s1 = s\<lparr>epochs_run := epochs_run s + 1\<rparr> in
      if early_stopping then
        (if loss_gt val_loss (prev_val_loss s1)
         then s1\<lparr>n_no_improvement := n_no_improvement s1 + 1\<rparr>
         else s1\<lparr>n_no_improvement := 0, prev_val_loss := Finite val_loss\<rparr>)
      else s1)"

fun epoch_loop :: "bool \<Rightarrow> int \<Rightarrow> real list \<Rightarrow> train_state \<Rightarrow> train_state" where
  "epoch_loop early_stopping early_stopping_patience [] s = s"
| "epoch_loop early_stopping early_stopping_patience (val_loss # rest) s =
     (let s1 = epoch_body early_stopping val_loss s in
      if n_no_improvement s1 \<ge> early_stopping_patience
      then s1\<lparr>stopped_early := True\<rparr>
      else epoch_loop early_stopping early_stopping_patience rest s1)"

definition train :: "bool \<Rightarrow> int \<Rightarrow> real list \<Rightarrow> train_state" where
  "train early_stopping early_stopping_patience val_losses =
     epoch_loop early_stopping early_stopping_patience val_losses initial_state"

text \<open>
  The state after the epochs of \<open>val_losses\<close> when the test on line 246 is ignored: used to
  say at which epoch the loop with the test stops.
\<close>

definition epochs_without_break :: "bool \<Rightarrow> real list \<Rightarrow> train_state \<Rightarrow> train_state" where
  "epochs_without_break early_stopping val_losses s =
     foldl (\<lambda>s v. epoch_body early_stopping v s) s val_losses"

section \<open>utils/visualizing_utils.py\<close>

subsection \<open>ResultContainer\<close>

text \<open>
  A one-dimensional array is a \<open>real list\<close>, a two-dimensional one the list of its rows.
  The two dictionaries are \<open>defaultdict(list)\<close>: reading a missing key yields the empty
  list, so \<open>d[name].append(v)\<close> always succeeds.
\<close>

record result_container =
  uncertainties :: "string \<rightharpoonup> real list list"
  predictions :: "string \<rightharpoonup> real list list"

definition ResultContainer_init :: result_container where
  "ResultContainer_init = \<lparr>uncertainties = Map.empty, predictions = Map.empty\<rparr>"

definition dd_get :: "('k \<rightharpoonup> 'v list) \<Rightarrow> 'k \<Rightarrow> 'v list" where
  "dd_get d k = (case d k of None \<Rightarrow> [] | Some vs \<Rightarrow> vs)"

definition dd_append :: "('k \<rightharpoonup> 'v list) \<Rightarrow> 'k \<Rightarrow> 'v \<Rightarrow> ('k \<rightharpoonup> 'v list)" where
  \<comment> \<open>\<open>d[k].append(v)\<close>\<close>
  "dd_append d k v = d(k \<mapsto> dd_get d k @ [v])"

definition column1 :: "real list list \<Rightarrow> error + real list" where
  \<comment> \<open>\<open>a[:, 1]\<close>: raises when the array has fewer than two columns.\<close>
  "column1 a = (if list_all (\<lambda>r. 2 \<le> length r) a then Inr (map (\<lambda>r. r ! 1) a) else Inl IndexError)"

text \<open>
  \<open>gen_utils.entropy\<close> and \<open>gen_utils.platt_scale\<close> live in \<open>modeling_utils\<close>, which is
  not among the sources: they are parameters of \<open>add_results\<close>, and may raise.
  \<open>entropy a\<close> stands for \<open>gen_utils.entropy(a, axis=1)\<close>. An exception ends the call; the
  container as the exception leaves it is not represented.
\<close>

definition add_results ::
  "(real list list \<Rightarrow> error + real list) \<Rightarrow>
   (real list \<Rightarrow> real list \<Rightarrow> real list option \<Rightarrow> error + real list) \<Rightarrow>
   result_container \<Rightarrow> real list list \<Rightarrow> string \<Rightarrow> real list list option \<Rightarrow>
   real list option \<Rightarrow> bool \<Rightarrow> error + result_container" where
  "add_results entropy platt_scale self y_pred name y_pred_val y_val calibrate =
     (if \<not> calibrate then
        (case entropy y_pred of Inl e \<Rightarrow> Inl e
         | Inr unc \<Rightarrow>
        (case column1 y_pred of Inl e \<Rightarrow> Inl e
         | Inr raw \<Rightarrow>
           Inr (self\<lparr>uncertainties := dd_append (uncertainties self) name unc,
                     predictions := dd_append (predictions self) name raw\<rparr>)))
      else
        (case column1 y_pred of Inl e \<Rightarrow> Inl e
         | Inr raw \<Rightarrow>
        (case y_pred_val of None \<Rightarrow> Inl TypeError
         | Some pv \<Rightarrow>
        (case column1 pv of Inl e \<Rightarrow> Inl e
         | Inr raw_val \<Rightarrow>
        (case platt_scale raw raw_val y_val of Inl e \<Rightarrow> Inl e
         | Inr y_pred_calibrated \<Rightarrow>
        (case entropy y_pred of Inl e \<Rightarrow> Inl e
         | Inr unc \<Rightarrow>
           Inr (self\<lparr>uncertainties := dd_append (uncertainties self) name unc,
                     predictions := dd_append (predictions self) name y_pred_calibrated\<rparr>)))))))"



subsection \<open>get_incremental_loss\<close>

text \<open>A row of the data frame built on lines 211-216.\<close>

record row =
  col_y_pred :: real
  col_minimum_y_pred :: real
  col_uncertainty :: real
  col_y :: real

definition make_df :: "real list \<Rightarrow> real list \<Rightarrow> real list \<Rightarrow> error + row list" where
  \<comment> \<open>\<open>pd.DataFrame\<close> of columns of unequal length raises ValueError.\<close>
  "make_df p u y =
     (if length u = length p \<and> length y = length p
      then Inr (map (\<lambda>(pv, uv, yv).
             \<lparr>col_y_pred = pv, col_minimum_y_pred = min (1 - pv) pv,
              col_uncertainty = uv, col_y = yv\<rparr>) (zip p (zip u y)))
      else Inl ValueError)"

definition sort_values :: "row list \<Rightarrow> row list" where
  \<comment> \<open>\<open>df.sort_values(by='uncertainty')\<close>; rows of equal uncertainty keep their order here,
      pandas leaves their order to its sorting algorithm.\<close>
  "sort_values df = sort_key col_uncertainty df"

definition range_list :: "int \<Rightarrow> int \<Rightarrow> int \<Rightarrow> int list" where
  \<comment> \<open>The elements of \<open>range(start, stop, step)\<close> for a step other than 0.\<close>
  "range_list start stop step =
     (if step > 0
      then map (\<lambda>k. start + int k * step) [0..<nat ((stop - start + step - 1) div step)]
      else map (\<lambda>k. start + int k * step) [0..<nat ((start - stop - step - 1) div (- step))])"

definition py_range :: "int \<Rightarrow> int \<Rightarrow> int \<Rightarrow> error + int list" where
  "py_range start stop step = (if step = 0 then Inl ValueError else Inr (range_list start stop step))"

definition py_prefix :: "int \<Rightarrow> 'a list \<Rightarrow> 'a list" where
  \<comment> \<open>\<open>xs[:i]\<close>: a negative \<open>i\<close> drops the last \<open>-i\<close> elements.\<close>
  "py_prefix i xs = (if i < 0 then take (nat (int (length xs) + i)) xs else take (nat i) xs)"

type_synonym metric_fn = "real list \<Rightarrow> real list \<Rightarrow> real"

fun prefix_loop ::
  "metric_fn \<Rightarrow> row list \<Rightarrow> int list \<Rightarrow> real list \<times> int list \<Rightarrow> real list \<times> int list" where
  \<comment> \<open>Lines 222-225, on the elements of the range.\<close>
  "prefix_loop metric sorted_df [] (temp_score, temp_xs) = (temp_score, temp_xs)"
| "prefix_loop metric sorted_df (i # rest) (temp_score, temp_xs) =
     (let temp = py_prefix i sorted_df in
      prefix_loop metric sorted_df rest
        (temp_score @ [metric (map col_y temp) (map col_y_pred temp)], temp_xs @ [i]))"

fun seed_loop ::
  "metric_fn \<Rightarrow> int \<Rightarrow> int \<Rightarrow> real list list \<Rightarrow> real list list \<Rightarrow> real list list \<Rightarrow>
   nat list \<Rightarrow> real list list \<times> row list option \<Rightarrow> error + real list list \<times> row list option" where
  \<comment> \<open>Lines 210-226. The second component is the variable \<open>sorted_df\<close>, which outlives
      the loop; \<open>None\<close> while it is unbound.\<close>
  "seed_loop metric min_size step_size y_test y_pred uncertainty [] st = Inr st"
| "seed_loop metric min_size step_size y_test y_pred uncertainty (n # rest)
       (list_of_scores, sorted_df_var) =
     (case py_index y_pred (int n) of Inl e \<Rightarrow> Inl e
      | Inr p \<Rightarrow>
     (case py_index uncertainty (int n) of Inl e \<Rightarrow> Inl e
      | Inr u \<Rightarrow>
     (case py_index y_test (int n) of Inl e \<Rightarrow> Inl e
      | Inr y \<Rightarrow>
     (case make_df p u y of Inl e \<Rightarrow> Inl e
      | Inr df \<Rightarrow>
       (let sorted_df = sort_values df in
        case py_range min_size (int (length sorted_df)) step_size of Inl e \<Rightarrow> Inl e
        | Inr is \<Rightarrow>
          (let (temp_score, temp_xs) = prefix_loop metric sorted_df is ([], []) in
           seed_loop metric min_size step_size y_test y_pred uncertainty rest
             (list_of_scores @ [temp_score], Some sorted_df)))))))"

definition np_mean :: "real list \<Rightarrow> real" where
  "np_mean vs = sum_list vs / real (length vs)"

definition np_std :: "real list \<Rightarrow> real" where
  \<comment> \<open>\<open>numpy.std\<close> with its default \<open>ddof=0\<close>\<close>
  "np_std vs = sqrt (np_mean (map (\<lambda>v. (v - np_mean vs)\<^sup>2) vs))"

fun reduce_axis0 :: "(real list \<Rightarrow> real) \<Rightarrow> real list list \<Rightarrow> error + real list" where
  \<comment> \<open>\<open>list(np.array(rows).f(axis=0))\<close>. Without rows the reduction is a scalar, which
      \<open>list\<close> refuses; rows of unequal length do not form an array.\<close>
  "reduce_axis0 f [] = Inl TypeError"
| "reduce_axis0 f (r # rs) =
     (if list_all (\<lambda>q. length q = length r) rs
      then Inr (map (\<lambda>j. f (map (\<lambda>q. q ! j) (r # rs))) [0..<length r])
      else Inl ValueError)"

record loss_dicts =
  xs_dict :: "string \<rightharpoonup> int list"
  score_dict :: "string \<rightharpoonup> real list"
  score_std_dict :: "string \<rightharpoonup> real list"

text \<open>A metric is a callable with its \<open>__name__\<close>.\<close>

fun metric_loop ::
  "int \<Rightarrow> int \<Rightarrow> real list list \<Rightarrow> real list list \<Rightarrow> real list list \<Rightarrow>
   (string \<times> metric_fn) list \<Rightarrow> loss_dicts \<times> row list option \<Rightarrow>
   error + loss_dicts \<times> row list option" where
  \<comment> \<open>Lines 207-231\<close>
  "metric_loop min_size step_size y_test y_pred uncertainty [] st = Inr st"
| "metric_loop min_size step_size y_test y_pred uncertainty ((name, metric) # rest)
       (d, sorted_df_var) =
     (case seed_loop metric min_size step_size y_test y_pred uncertainty
             [0..<length uncertainty] ([], sorted_df_var)
      of Inl e \<Rightarrow> Inl e
      | Inr (list_of_scores, sorted_df_var1) \<Rightarrow>
     (case reduce_axis0 np_mean list_of_scores of Inl e \<Rightarrow> Inl e
      | Inr means \<Rightarrow>
     (case reduce_axis0 np_std list_of_scores of Inl e \<Rightarrow> Inl e
      | Inr stds \<Rightarrow>
     (case sorted_df_var1 of None \<Rightarrow> Inl NameError
      | Some sorted_df \<Rightarrow>
     (case py_range min_size (int (length sorted_df)) step_size of Inl e \<Rightarrow> Inl e
      | Inr positions \<Rightarrow>
        metric_loop min_size step_size y_test y_pred uncertainty rest
          (\<lparr>xs_dict = (xs_dict d)(name \<mapsto> positions),
            score_dict = (score_dict d)(name \<mapsto> means),
            score_std_dict = (score_std_dict d)(name \<mapsto> stds)\<rparr>, sorted_df_var1))))))"

definition get_incremental_loss ::
  "real list list \<Rightarrow> real list list \<Rightarrow> real list list \<Rightarrow> (string \<times> metric_fn) list \<Rightarrow>
   int \<Rightarrow> int \<Rightarrow> error + loss_dicts" where
  "get_incremental_loss y_test y_pred uncertainty metrics min_size step_size =
     (case metric_loop min_size step_size y_test y_pred uncertainty metrics
             (\<lparr>xs_dict = Map.empty, score_dict = Map.empty, score_std_dict = Map.empty\<rparr>, None)
      of Inl e \<Rightarrow> Inl e
      | Inr (d, sorted_df_var) \<Rightarrow> Inr d)"

text \<open>
  What one seed contributes, written without the loops: the rows sorted by uncertainty and
  the metric on each prefix. The theorems relate the loops to these.
\<close>

definition seed_sorted :: "real list \<Rightarrow> real list \<Rightarrow> real list \<Rightarrow> row list" where
  "seed_sorted p u y = (case make_df p u y of Inl e \<Rightarrow> [] | Inr df \<Rightarrow> sort_values df)"

definition seed_scores ::
  "metric_fn \<Rightarrow> int \<Rightarrow> int \<Rightarrow> real list \<Rightarrow> real list \<Rightarrow> real list \<Rightarrow> real list" where
  "seed_scores metric min_size step_size p u y =
     map (\<lambda>i. metric (map col_y (py_prefix i (seed_sorted p u y)))
                     (map col_y_pred (py_prefix i (seed_sorted p u y))))
       (range_list min_size (int (length p)) step_size)"

text \<open>A seed whose arrays are present and of one length.\<close>

definition seed_ok :: "real list list \<Rightarrow> real list list \<Rightarrow> real list list \<Rightarrow> nat \<Rightarrow> bool" where
  "seed_ok y_test y_pred uncertainty n \<longleftrightarrow>
     n < length y_pred \<and> n < length uncertainty \<and> n < length y_test
     \<and> length (uncertainty ! n) = length (y_pred ! n)
     \<and> length (y_test ! n) = length (y_pred ! n)"

text \<open>\<open>list_of_scores\<close> of one metric, and a reduction of its columns.\<close>

definition seed_rows ::
  "metric_fn \<Rightarrow> int \<Rightarrow> int \<Rightarrow> real list list \<Rightarrow> real list list \<Rightarrow> real list list \<Rightarrow>
   real list list" where
  "seed_rows metric min_size step_size y_test y_pred uncertainty =
     map (\<lambda>n. seed_scores metric min_size step_size (y_pred ! n) (uncertainty ! n) (y_test ! n))
       [0..<length uncertainty]"

definition columnwise :: "(real list \<Rightarrow> real) \<Rightarrow> real list list \<Rightarrow> real list" where
  "columnwise g rows = map (\<lambda>j. g (map (\<lambda>q. q ! j) rows)) [0..<length (hd rows)]"

section \<open>Properties of models/mlp.py\<close>

subsection \<open>The epoch loop with and without its break\<close>

lemma epoch_body_epochs_run: "epochs_run (epoch_body es v s) = epochs_run s + 1"
  by (simp add: epoch_body_def Let_def)

lemma epoch_body_counter_nonneg:
  "0 \<le> n_no_improvement s \<Longrightarrow> 0 \<le> n_no_improvement (epoch_body es v s)"
  by (simp add: epoch_body_def Let_def)

lemma epoch_body_worse:
  "loss_gt v (prev_val_loss s) \<Longrightarrow>
     n_no_improvement (epoch_body True v s) = n_no_improvement s + 1
     \<and> prev_val_loss (epoch_body True v s) = prev_val_loss s"
  by (simp add: epoch_body_def Let_def)

lemma epoch_body_not_worse:
  "\<not> loss_gt v (prev_val_loss s) \<Longrightarrow>
     n_no_improvement (epoch_body True v s) = 0
     \<and> prev_val_loss (epoch_body True v s) = Finite v"
  by (simp add: epoch_body_def Let_def)

lemma epoch_body_disabled:
  "n_no_improvement (epoch_body False v s) = n_no_improvement s
   \<and> stopped_early (epoch_body False v s) = stopped_early s"
  by (simp add: epoch_body_def Let_def)

lemma epochs_without_break_Cons:
  "epochs_without_break es (v # vs) s = epochs_without_break es vs (epoch_body es v s)"
  by (simp add: epochs_without_break_def)

lemma epoch_loop_runs_through:
  "(\<forall>k\<in>{1..length vs}. n_no_improvement (epochs_without_break es (take k vs) s) < pat)
   \<Longrightarrow> epoch_loop es pat vs s = epochs_without_break es vs s"
proof (induction vs arbitrary: s)
  case Nil
  then show ?case by (simp add: epochs_without_break_def)
next
  case (Cons v vs)
  have first: "n_no_improvement (epoch_body es v s) < pat"
    using Cons.prems [rule_format, of 1] by (simp add: epochs_without_break_def)
  have rest: "\<forall>k\<in>{1..length vs}.
      n_no_improvement (epochs_without_break es (take k vs) (epoch_body es v s)) < pat"
  proof
    fix k assume "k \<in> {1..length vs}"
    then have "Suc k \<in> {1..length (v # vs)}" by simp
    from Cons.prems [rule_format, OF this]
    show "n_no_improvement (epochs_without_break es (take k vs) (epoch_body es v s)) < pat"
      by (simp add: epochs_without_break_Cons)
  qed
  show ?case
    using first Cons.IH [OF rest] by (simp add: Let_def epochs_without_break_Cons)
qed

lemma epoch_loop_stops_at:
  "k \<in> {1..length vs} \<Longrightarrow>
   pat \<le> n_no_improvement (epochs_without_break es (take k vs) s) \<Longrightarrow>
   (\<forall>j\<in>{1..<k}. n_no_improvement (epochs_without_break es (take j vs) s) < pat) \<Longrightarrow>
   epoch_loop es pat vs s = (epochs_without_break es (take k vs) s)\<lparr>stopped_early := True\<rparr>"
proof (induction vs arbitrary: s k)
  case Nil
  then show ?case by simp
next
  case (Cons v vs)
  show ?case
  proof (cases "k = 1")
    case True
    with Cons.prems(2) show ?thesis
      by (simp add: epochs_without_break_def Let_def)
  next
    case False
    with Cons.prems(1) obtain k' where k': "k = Suc k'" "k' \<in> {1..length vs}"
      by (cases k) auto
    have first: "n_no_improvement (epoch_body es v s) < pat"
      using Cons.prems(3) [rule_format, of 1] False Cons.prems(1)
      by (simp add: epochs_without_break_def)
    have hit: "pat \<le> n_no_improvement (epochs_without_break es (take k' vs) (epoch_body es v s))"
      using Cons.prems(2) k' by (simp add: epochs_without_break_Cons)
    have before: "\<forall>j\<in>{1..<k'}.
        n_no_improvement (epochs_without_break es (take j vs) (epoch_body es v s)) < pat"
    proof
      fix j assume "j \<in> {1..<k'}"
      then have "Suc j \<in> {1..<k}" using k' by simp
      from Cons.prems(3) [rule_format, OF this]
      show "n_no_improvement (epochs_without_break es (take j vs) (epoch_body es v s)) < pat"
        by (simp add: epochs_without_break_Cons)
    qed
    show ?thesis
      using first Cons.IH [OF k'(2) hit before] k'
      by (simp add: Let_def epochs_without_break_Cons)
  qed
qed

lemma epochs_without_break_epochs_run:
  "epochs_run (epochs_without_break es vs s) = epochs_run s + length vs"
  by (induction vs arbitrary: s) (simp_all add: epochs_without_break_def epoch_body_epochs_run)

lemma epoch_loop_disabled:
  "n_no_improvement s < pat \<Longrightarrow>
   epoch_loop False pat vs s = s\<lparr>epochs_run := epochs_run s + length vs\<rparr>"
  by (induction vs arbitrary: s) (simp_all add: epoch_body_def Let_def)

lemma epochs_without_break_stopped_early:
  "stopped_early (epochs_without_break es vs s) = stopped_early s"
  by (induction vs arbitrary: s) (simp_all add: epochs_without_break_def epoch_body_def Let_def)

subsection \<open>The claims\<close>

text \<open>
  C2. With an empty hidden-layer list the constructor does not build the single linear
  layer from input to output: the guard on line 33 and the loop on line 40 skip the hidden
  blocks, and line 47 then reads \<open>hidden_sizes[-1]\<close> of the empty list, which raises
  IndexError, for every input size, output size, dropout rate and batch-norm flag.
\<close>

theorem MLPModule_init_empty_raises:
  "MLPModule_init [] input_size dropout_rate output_size do_batch_norm = Inl IndexError"
  by (simp add: MLPModule_init_def py_index_def)

text \<open>
  C3. With class weighting the positive-class weight is the literal 0 for a batch mean of
  0, the literal 1 for a batch mean of 1 and the quotient \<open>(1 - m) / m\<close> for every other
  mean, which is 3 for the mean 1/4; without class weighting it is the literal 1 for every
  mean. The quotient is computed only when the mean is neither 0 nor 1.
\<close>

theorem get_loss_fn_pos_weight:
  "get_loss_fn True 0 = Literal 0
   \<and> get_loss_fn True 1 = Literal 1
   \<and> (m \<noteq> 0 \<and> m \<noteq> 1 \<longrightarrow>
        get_loss_fn True m = Divided (1 - m) m
        \<and> pos_weight_value (get_loss_fn True m) = (1 - m) / m)
   \<and> pos_weight_value (get_loss_fn True (1 / 4)) = 3
   \<and> get_loss_fn False m = Literal 1
   \<and> (performs_division (get_loss_fn cw m) \<longleftrightarrow> cw \<and> m \<noteq> 0 \<and> m \<noteq> 1)"
  by (simp add: get_loss_fn_def)

theorem get_loss_fn_pos_weight_witness:
  "(1 / 4 :: real) \<noteq> 0 \<and> (1 / 4 :: real) \<noteq> 1
   \<and> get_loss_fn True (1 / 4) = Divided (3 / 4) (1 / 4)
   \<and> pos_weight_value (get_loss_fn True (1 / 4)) = 3
   \<and> \<not> performs_division (get_loss_fn True 0) \<and> \<not> performs_division (get_loss_fn True 1)"
  using get_loss_fn_pos_weight [of "1 / 4" True] get_loss_fn_pos_weight [of 0 True]
    get_loss_fn_pos_weight [of 1 True]
  by simp

text \<open>
  C1 (as the code has it). With early stopping, an epoch whose validation loss is strictly
  greater than the retained best increments the no-improvement counter and keeps the best;
  a loss less than or equal to the retained best, a tie included, resets the counter to
  zero and becomes the retained best, as does the first epoch. Training stops after the
  first epoch at which the counter has reached the patience, and runs all epochs when that
  never happens. For the validation losses 0.5, 0.4, 0.4, 0.4 and patience 2 the counter
  is 0 after the fourth epoch and the loop goes on with whatever epochs are left.
\<close>

theorem train_early_stopping:
  "(prev_val_loss s = Finite p \<and> v > p \<longrightarrow>
      n_no_improvement (epoch_body True v s) = n_no_improvement s + 1
      \<and> prev_val_loss (epoch_body True v s) = Finite p)
   \<and> (prev_val_loss s = Infinity \<or> (prev_val_loss s = Finite p \<and> v \<le> p) \<longrightarrow>
      n_no_improvement (epoch_body True v s) = 0
      \<and> prev_val_loss (epoch_body True v s) = Finite v)
   \<and> (k \<in> {1..length val_losses}
       \<and> patience \<le> n_no_improvement (epochs_without_break True (take k val_losses) initial_state)
       \<and> (\<forall>j\<in>{1..<k}.
            n_no_improvement (epochs_without_break True (take j val_losses) initial_state) < patience)
       \<longrightarrow>
      train True patience val_losses
        = (epochs_without_break True (take k val_losses) initial_state)\<lparr>stopped_early := True\<rparr>
      \<and> epochs_run (train True patience val_losses) = k)
   \<and> ((\<forall>j\<in>{1..length val_losses}.
            n_no_improvement (epochs_without_break True (take j val_losses) initial_state) < patience)
       \<longrightarrow>
      train True patience val_losses = epochs_without_break True val_losses initial_state
      \<and> epochs_run (train True patience val_losses) = length val_losses
      \<and> \<not> stopped_early (train True patience val_losses))
   \<and> train True 2 ([5 / 10, 4 / 10, 4 / 10, 4 / 10] @ later)
       = epoch_loop True 2 later
           \<lparr>prev_val_loss = Finite (4 / 10), n_no_improvement = 0, epochs_run = 4,
            stopped_early = False\<rparr>"
proof -
  have worse: "prev_val_loss s = Finite p \<and> v > p \<longrightarrow>
      n_no_improvement (epoch_body True v s) = n_no_improvement s + 1
      \<and> prev_val_loss (epoch_body True v s) = Finite p"
    using epoch_body_worse [of v s] by auto
  have not_worse: "prev_val_loss s = Infinity \<or> (prev_val_loss s = Finite p \<and> v \<le> p) \<longrightarrow>
      n_no_improvement (epoch_body True v s) = 0
      \<and> prev_val_loss (epoch_body True v s) = Finite v"
    using epoch_body_not_worse [of v s] by auto
  have stops: "k \<in> {1..length val_losses}
       \<and> patience \<le> n_no_improvement (epochs_without_break True (take k val_losses) initial_state)
       \<and> (\<forall>j\<in>{1..<k}.
            n_no_improvement (epochs_without_break True (take j val_losses) initial_state) < patience)
       \<longrightarrow>
      train True patience val_losses
        = (epochs_without_break True (take k val_losses) initial_state)\<lparr>stopped_early := True\<rparr>
      \<and> epochs_run (train True patience val_losses) = k"
  proof (intro impI, elim conjE)
    assume k: "k \<in> {1..length val_losses}"
      and hit: "patience \<le> n_no_improvement (epochs_without_break True (take k val_losses) initial_state)"
      and before: "\<forall>j\<in>{1..<k}.
            n_no_improvement (epochs_without_break True (take j val_losses) initial_state) < patience"
    have eq: "train True patience val_losses
        = (epochs_without_break True (take k val_losses) initial_state)\<lparr>stopped_early := True\<rparr>"
      unfolding train_def by (rule epoch_loop_stops_at [OF k hit before])
    have "epochs_run (train True patience val_losses) = k"
      using k by (simp add: eq epochs_without_break_epochs_run initial_state_def)
    with eq show "train True patience val_losses
        = (epochs_without_break True (take k val_losses) initial_state)\<lparr>stopped_early := True\<rparr>
      \<and> epochs_run (train True patience val_losses) = k" by simp
  qed
  have through: "(\<forall>j\<in>{1..length val_losses}.
            n_no_improvement (epochs_without_break True (take j val_losses) initial_state) < patience)
       \<longrightarrow>
      train True patience val_losses = epochs_without_break True val_losses initial_state
      \<and> epochs_run (train True patience val_losses) = length val_losses
      \<and> \<not> stopped_early (train True patience val_losses)"
  proof
    assume all: "\<forall>j\<in>{1..length val_losses}.
            n_no_improvement (epochs_without_break True (take j val_losses) initial_state) < patience"
    have eq: "train True patience val_losses = epochs_without_break True val_losses initial_state"
      unfolding train_def by (rule epoch_loop_runs_through [OF all])
    show "train True patience val_losses = epochs_without_break True val_losses initial_state
      \<and> epochs_run (train True patience val_losses) = length val_losses
      \<and> \<not> stopped_early (train True patience val_losses)"
      by (simp add: eq epochs_without_break_epochs_run epochs_without_break_stopped_early
          initial_state_def)
  qed
  have plateau: "train True 2 ([5 / 10, 4 / 10, 4 / 10, 4 / 10] @ later)
       = epoch_loop True 2 later
           \<lparr>prev_val_loss = Finite (4 / 10), n_no_improvement = 0, epochs_run = 4,
            stopped_early = False\<rparr>"
    by (simp add: train_def initial_state_def epoch_body_def Let_def eval_nat_numeral)
  from worse not_worse stops through plateau show ?thesis by blast
qed

theorem train_early_stopping_witness:
  "(4::nat) \<in> {1..length [5 / 10, 4 / 10, 45 / 100, 41 / 100 :: real]}
   \<and> 2 \<le> n_no_improvement
        (epochs_without_break True (take 4 [5 / 10, 4 / 10, 45 / 100, 41 / 100]) initial_state)
   \<and> n_no_improvement
        (epochs_without_break True (take 3 [5 / 10, 4 / 10, 45 / 100, 41 / 100]) initial_state) < 2
   \<and> epochs_run (train True 2 [5 / 10, 4 / 10, 45 / 100, 41 / 100]) = 4
   \<and> stopped_early (train True 2 [5 / 10, 4 / 10, 45 / 100, 41 / 100])
   \<and> epochs_run (train True 2 [5 / 10, 4 / 10, 4 / 10, 4 / 10]) = 4
   \<and> \<not> stopped_early (train True 2 [5 / 10, 4 / 10, 4 / 10, 4 / 10])
   \<and> n_no_improvement (epoch_body True (45 / 100)
        \<lparr>prev_val_loss = Finite (4 / 10), n_no_improvement = 0, epochs_run = 2,
         stopped_early = False\<rparr>) = 1
   \<and> n_no_improvement (epoch_body True (4 / 10)
        \<lparr>prev_val_loss = Finite (4 / 10), n_no_improvement = 1, epochs_run = 2,
         stopped_early = False\<rparr>) = 0"
proof -
  let ?a = "[5 / 10, 4 / 10, 45 / 100, 41 / 100 :: real]"
  let ?b = "[5 / 10, 4 / 10, 4 / 10, 4 / 10 :: real]"
  have k: "(4::nat) \<in> {1..length ?a}" by simp
  have hit: "2 \<le> n_no_improvement (epochs_without_break True (take 4 ?a) initial_state)"
    by (simp add: epochs_without_break_def epoch_body_def initial_state_def Let_def)
  have before: "\<forall>j\<in>{1..<4}. n_no_improvement
        (epochs_without_break True (take j ?a) initial_state) < 2"
  proof
    fix j :: nat assume "j \<in> {1..<4}"
    then have "j = 1 \<or> j = 2 \<or> j = 3" by auto
    then show "n_no_improvement (epochs_without_break True (take j ?a) initial_state) < 2"
      by (auto simp: epochs_without_break_def epoch_body_def initial_state_def Let_def
          take_Suc_Cons numeral_2_eq_2 numeral_3_eq_3)
  qed
  have never: "\<forall>j\<in>{1..length ?b}. n_no_improvement
        (epochs_without_break True (take j ?b) initial_state) < 2"
  proof
    fix j :: nat assume "j \<in> {1..length ?b}"
    then have "j = 1 \<or> j = 2 \<or> j = 3 \<or> j = 4" by auto
    then show "n_no_improvement (epochs_without_break True (take j ?b) initial_state) < 2"
      by (auto simp: epochs_without_break_def epoch_body_def initial_state_def Let_def
          take_Suc_Cons numeral_2_eq_2 numeral_3_eq_3 eval_nat_numeral)
  qed
  let ?s1 = "\<lparr>prev_val_loss = Finite (4 / 10), n_no_improvement = 0, epochs_run = 2,
         stopped_early = False\<rparr>"
  let ?s2 = "\<lparr>prev_val_loss = Finite (4 / 10), n_no_improvement = 1, epochs_run = 2,
         stopped_early = False\<rparr>"
  have stepw: "prev_val_loss ?s1 = Finite (4 / 10) \<and> (45 / 100 :: real) > 4 / 10" by simp
  have stepn: "prev_val_loss ?s2 = Infinity
      \<or> (prev_val_loss ?s2 = Finite (4 / 10) \<and> (4 / 10 :: real) \<le> 4 / 10)" by simp
  note at_a = train_early_stopping [of ?s1 "4 / 10" "45 / 100" 4 ?a 2 "[]"]
  note at_b = train_early_stopping [of ?s2 "4 / 10" "4 / 10" 4 ?b 2 "[]"]
  have w1: "n_no_improvement (epoch_body True (45 / 100) ?s1) = n_no_improvement ?s1 + 1"
    using at_a stepw by blast
  have w2: "n_no_improvement (epoch_body True (4 / 10) ?s2) = 0"
    using at_b stepn by blast
  have w3: "train True 2 ?a
        = (epochs_without_break True (take 4 ?a) initial_state)\<lparr>stopped_early := True\<rparr>
      \<and> epochs_run (train True 2 ?a) = 4"
    using at_a k hit before by blast
  have w4: "epochs_run (train True 2 ?b) = length ?b \<and> \<not> stopped_early (train True 2 ?b)"
    using at_b never by blast
  have w5: "epochs_run (train True 2 ?a) = 4"
    using w3 by blast
  have w6: "stopped_early (train True 2 ?a)"
    using w3 by simp
  have "(3::nat) \<in> {1..<4}" by simp
  from before [rule_format, OF this]
  have third: "n_no_improvement (epochs_without_break True (take 3 ?a) initial_state) < 2" .
  show ?thesis
    using k hit third w1 w2 w5 w6 w4 by simp
qed

text \<open>
  A tie does not count as a missing improvement: at a retained best of 0.4 an epoch with
  validation loss 0.4 leaves the counter at 0, and with patience 2 the losses
  0.5, 0.4, 0.4, 0.4, 0.4, 0.4 run all six epochs.
\<close>

theorem train_tie_counterexample:
  "n_no_improvement (epoch_body True (4 / 10)
      \<lparr>prev_val_loss = Finite (4 / 10), n_no_improvement = 0, epochs_run = 2,
       stopped_early = False\<rparr>) = 0
   \<and> epochs_run (train True 2 [5 / 10, 4 / 10, 4 / 10, 4 / 10, 4 / 10, 4 / 10]) = 6
   \<and> \<not> stopped_early (train True 2 [5 / 10, 4 / 10, 4 / 10, 4 / 10])"
  by (simp add: train_def initial_state_def epoch_body_def Let_def)

text \<open>
  C9. Without early stopping and with a patience of at least 1 the loop runs all
  \<open>n_epochs\<close> epochs, the counter stays 0 and the break is not taken. With patience 0
  the loop breaks after its first epoch, with or without early stopping and whatever
  the validation losses are.
\<close>

theorem train_loop_without_early_stopping:
  "(1 \<le> patience \<longrightarrow>
      epochs_run (train False patience val_losses) = length val_losses
      \<and> n_no_improvement (train False patience val_losses) = 0
      \<and> \<not> stopped_early (train False patience val_losses))
   \<and> (val_losses \<noteq> [] \<longrightarrow>
      epochs_run (train es 0 val_losses) = 1 \<and> stopped_early (train es 0 val_losses))"
proof (intro conjI impI)
  assume "1 \<le> patience"
  then have eq: "train False patience val_losses
      = initial_state\<lparr>epochs_run := epochs_run initial_state + length val_losses\<rparr>"
    unfolding train_def by (intro epoch_loop_disabled) (simp add: initial_state_def)
  show "epochs_run (train False patience val_losses) = length val_losses"
    by (simp add: eq initial_state_def)
  show "n_no_improvement (train False patience val_losses) = 0"
    by (simp add: eq initial_state_def)
  show "\<not> stopped_early (train False patience val_losses)"
    by (simp add: eq initial_state_def)
next
  assume "val_losses \<noteq> []"
  then obtain v rest where vl: "val_losses = v # rest" by (cases val_losses) auto
  have "0 \<le> n_no_improvement (epoch_body es v initial_state)"
    by (rule epoch_body_counter_nonneg) (simp add: initial_state_def)
  then have eq: "train es 0 val_losses = (epoch_body es v initial_state)\<lparr>stopped_early := True\<rparr>"
    by (simp add: train_def vl Let_def)
  show "epochs_run (train es 0 val_losses) = 1"
    by (simp add: eq epoch_body_epochs_run initial_state_def)
  show "stopped_early (train es 0 val_losses)"
    by (simp add: eq)
qed

theorem train_loop_without_early_stopping_witness:
  "(1::int) \<le> 2 \<and> [5 / 10, 6 / 10, 7 / 10 :: real] \<noteq> []
   \<and> epochs_run (train False 2 [5 / 10, 6 / 10, 7 / 10]) = 3
   \<and> \<not> stopped_early (train False 2 [5 / 10, 6 / 10, 7 / 10])
   \<and> epochs_run (train True 0 [5 / 10, 4 / 10, 3 / 10]) = 1
   \<and> epochs_run (train False 0 [5 / 10, 4 / 10, 3 / 10]) = 1"
  using train_loop_without_early_stopping [of 2 "[5 / 10, 6 / 10, 7 / 10]" False]
    train_loop_without_early_stopping [of 2 "[5 / 10, 4 / 10, 3 / 10]" True]
    train_loop_without_early_stopping [of 2 "[5 / 10, 4 / 10, 3 / 10]" False]
  by simp

section \<open>Properties of utils/visualizing_utils.py\<close>

subsection \<open>Appending to the container\<close>

lemma dd_get_dd_append:
  "dd_get (dd_append d k v) k' = (if k' = k then dd_get d k @ [v] else dd_get d k')"
  by (simp add: dd_get_def dd_append_def)


lemma add_results_Inr:
  assumes "add_results entropy platt_scale self y_pred name y_pred_val y_val calibrate = Inr c"
  shows "\<exists>unc stored.
           entropy y_pred = Inr unc
         \<and> (if calibrate
            then \<exists>raw pv raw_val. column1 y_pred = Inr raw \<and> y_pred_val = Some pv
                   \<and> column1 pv = Inr raw_val \<and> platt_scale raw raw_val y_val = Inr stored
            else column1 y_pred = Inr stored)
         \<and> c = self\<lparr>uncertainties := dd_append (uncertainties self) name unc,
                     predictions := dd_append (predictions self) name stored\<rparr>"
  using assms
  by (cases calibrate) (auto simp: add_results_def split: sum.splits option.splits)







subsection \<open>The seed loop and the metric loop\<close>

lemma py_index_nat:
  "py_index xs (int n) = (if n < length xs then Inr (xs ! n) else Inl IndexError)"
  by (simp add: py_index_def Let_def)

lemma py_range_Inr_iff:
  "py_range a b s = Inr r \<longleftrightarrow> s \<noteq> 0 \<and> r = range_list a b s"
  by (auto simp: py_range_def)

lemma make_df_Inr_iff:
  "(\<exists>df. make_df p u y = Inr df) \<longleftrightarrow> length u = length p \<and> length y = length p"
  by (simp add: make_df_def)

lemma make_df_length: "make_df p u y = Inr df \<Longrightarrow> length df = length p"
  by (auto simp: make_df_def split: if_splits)

lemma length_sort_values [simp]: "length (sort_values df) = length df"
  by (simp add: sort_values_def)

lemma sorted_sort_values: "sorted (map col_uncertainty (sort_values df))"
  by (simp add: sort_values_def)

lemma mset_sort_values: "mset (sort_values df) = mset df"
  by (simp add: sort_values_def)

lemma seed_sorted_eq: "make_df p u y = Inr df \<Longrightarrow> seed_sorted p u y = sort_values df"
  by (simp add: seed_sorted_def)

lemma length_seed_sorted:
  "length u = length p \<Longrightarrow> length y = length p \<Longrightarrow> length (seed_sorted p u y) = length p"
  by (simp add: seed_sorted_def make_df_def)

lemma prefix_loop_eq:
  "prefix_loop metric sorted_df is (temp_score, temp_xs) =
     (temp_score @ map (\<lambda>i. metric (map col_y (py_prefix i sorted_df))
                                    (map col_y_pred (py_prefix i sorted_df))) is,
      temp_xs @ is)"
  by (induction "is" arbitrary: temp_score temp_xs) (simp_all add: Let_def)

lemma seed_loop_step:
  assumes "seed_ok yt yp un n" "st \<noteq> 0"
  shows "seed_loop f mn st yt yp un (n # ns) (los, sv) =
         seed_loop f mn st yt yp un ns
           (los @ [seed_scores f mn st (yp ! n) (un ! n) (yt ! n)],
            Some (seed_sorted (yp ! n) (un ! n) (yt ! n)))"
proof -
  from assms(1) have b: "n < length yp" "n < length un" "n < length yt"
    and l: "length (un ! n) = length (yp ! n)" "length (yt ! n) = length (yp ! n)"
    by (simp_all add: seed_ok_def)
  from l obtain df where df: "make_df (yp ! n) (un ! n) (yt ! n) = Inr df"
    using make_df_Inr_iff by blast
  have len: "length df = length (yp ! n)" by (rule make_df_length [OF df])
  show ?thesis
    using b df len assms(2)
    by (simp add: py_index_nat py_range_def prefix_loop_eq seed_scores_def seed_sorted_eq [OF df]
        Let_def)
qed

lemma seed_loop_fail:
  assumes "\<not> seed_ok yt yp un n \<or> st = 0"
  shows "\<exists>e. seed_loop f mn st yt yp un (n # ns) (los, sv) = Inl e"
proof (cases "seed_ok yt yp un n")
  case True
  with assms have st: "st = 0" by simp
  from True have b: "n < length yp" "n < length un" "n < length yt"
    and l: "length (un ! n) = length (yp ! n)" "length (yt ! n) = length (yp ! n)"
    by (simp_all add: seed_ok_def)
  from l obtain df where df: "make_df (yp ! n) (un ! n) (yt ! n) = Inr df"
    using make_df_Inr_iff by blast
  show ?thesis using b df st by (simp add: py_index_nat py_range_def)
next
  case False
  then show ?thesis
    by (auto simp: seed_ok_def py_index_nat make_df_def split: sum.splits)
qed

lemma seed_loop_success:
  assumes "st \<noteq> 0" "\<forall>n\<in>set ns. seed_ok yt yp un n"
  shows "seed_loop f mn st yt yp un ns (los, sv) =
         Inr (los @ map (\<lambda>n. seed_scores f mn st (yp ! n) (un ! n) (yt ! n)) ns,
              if ns = [] then sv
              else Some (seed_sorted (yp ! last ns) (un ! last ns) (yt ! last ns)))"
  using assms(2)
proof (induction ns arbitrary: los sv)
  case Nil
  then show ?case by simp
next
  case (Cons n ns)
  then have ok: "seed_ok yt yp un n" and rest: "\<forall>n\<in>set ns. seed_ok yt yp un n" by simp_all
  show ?case
    by (simp del: seed_loop.simps add: seed_loop_step [OF ok assms(1)] Cons.IH [OF rest])
qed

lemma seed_loop_Inr_D:
  assumes "seed_loop f mn st yt yp un ns (los, sv) = Inr r"
  shows "(ns \<noteq> [] \<longrightarrow> st \<noteq> 0) \<and> (\<forall>n\<in>set ns. seed_ok yt yp un n)"
  using assms
proof (induction ns arbitrary: los sv)
  case Nil
  then show ?case by simp
next
  case (Cons n ns)
  have ok: "seed_ok yt yp un n \<and> st \<noteq> 0"
  proof (rule ccontr)
    assume "\<not> (seed_ok yt yp un n \<and> st \<noteq> 0)"
    then have "\<not> seed_ok yt yp un n \<or> st = 0" by simp
    from seed_loop_fail [OF this, of f mn ns los sv] Cons.prems show False by auto
  qed
  then have ok1: "seed_ok yt yp un n" and st: "st \<noteq> 0" by simp_all
  from Cons.prems have "seed_loop f mn st yt yp un ns
           (los @ [seed_scores f mn st (yp ! n) (un ! n) (yt ! n)],
            Some (seed_sorted (yp ! n) (un ! n) (yt ! n))) = Inr r"
    by (simp only: seed_loop_step [OF ok1 st])
  from Cons.IH [OF this] ok show ?case by simp
qed

lemma seed_loop_Inr:
  assumes "seed_loop f mn st yt yp un ns (los, sv) = Inr r"
  shows "r = (los @ map (\<lambda>n. seed_scores f mn st (yp ! n) (un ! n) (yt ! n)) ns,
              if ns = [] then sv
              else Some (seed_sorted (yp ! last ns) (un ! last ns) (yt ! last ns)))"
proof (cases "ns = []")
  case True
  with assms show ?thesis by simp
next
  case False
  from seed_loop_Inr_D [OF assms] False have "st \<noteq> 0" "\<forall>n\<in>set ns. seed_ok yt yp un n"
    by simp_all
  from seed_loop_success [OF this, of f mn los sv] assms show ?thesis by simp
qed

lemma reduce_axis0_Inr:
  assumes "reduce_axis0 f rows = Inr r"
  shows "rows \<noteq> [] \<and> (\<forall>q\<in>set rows. length q = length (hd rows)) \<and> r = columnwise f rows"
  using assms by (cases rows) (auto simp: list_all_iff columnwise_def split: if_splits)

lemma reduce_axis0_success:
  assumes "rows \<noteq> []" "\<forall>q\<in>set rows. length q = length (hd rows)"
  shows "reduce_axis0 f rows = Inr (columnwise f rows)"
  using assms by (cases rows) (auto simp: list_all_iff columnwise_def)

lemma seed_loop_all:
  assumes "seed_loop f mn st yt yp un [0..<length un] ([], sv) = Inr (los, sv1)"
  shows "los = seed_rows f mn st yt yp un"
    and "un \<noteq> [] \<Longrightarrow> st \<noteq> 0"
    and "\<forall>n<length un. seed_ok yt yp un n"
    and "un \<noteq> [] \<Longrightarrow>
           sv1 = Some (seed_sorted (yp ! (length un - 1)) (last un) (yt ! (length un - 1)))"
    and "un \<noteq> [] \<Longrightarrow> length (seed_sorted (yp ! (length un - 1)) (last un) (yt ! (length un - 1)))
           = length (last un)"
proof -
  note r = seed_loop_Inr [OF assms] and dd = seed_loop_Inr_D [OF assms]
  show "los = seed_rows f mn st yt yp un" using r by (simp add: seed_rows_def)
  show "un \<noteq> [] \<Longrightarrow> st \<noteq> 0" using dd by simp
  show ok: "\<forall>n<length un. seed_ok yt yp un n" using dd by simp
  show "un \<noteq> [] \<Longrightarrow>
           sv1 = Some (seed_sorted (yp ! (length un - 1)) (last un) (yt ! (length un - 1)))"
    using r by (simp add: last_conv_nth)
  show "un \<noteq> [] \<Longrightarrow> length (seed_sorted (yp ! (length un - 1)) (last un) (yt ! (length un - 1)))
           = length (last un)"
  proof -
    assume ne: "un \<noteq> []"
    then have "seed_ok yt yp un (length un - 1)" using ok by simp
    then show ?thesis
      using ne by (simp add: seed_ok_def last_conv_nth length_seed_sorted)
  qed
qed

lemma metric_loop_Cons_Inr:
  assumes "metric_loop mn st yt yp un ((nm, f) # ms) (d, sv) = Inr r"
  shows "un \<noteq> []" and "st \<noteq> 0" and "\<forall>n<length un. seed_ok yt yp un n"
    and "\<forall>q\<in>set (seed_rows f mn st yt yp un). length q = length (hd (seed_rows f mn st yt yp un))"
    and "metric_loop mn st yt yp un ms
           (\<lparr>xs_dict = (xs_dict d)(nm \<mapsto> range_list mn (int (length (last un))) st),
             score_dict = (score_dict d)(nm \<mapsto> columnwise np_mean (seed_rows f mn st yt yp un)),
             score_std_dict =
               (score_std_dict d)(nm \<mapsto> columnwise np_std (seed_rows f mn st yt yp un))\<rparr>,
            Some (seed_sorted (yp ! (length un - 1)) (last un) (yt ! (length un - 1)))) = Inr r"
proof -
  from assms obtain los sv1 where
    sl: "seed_loop f mn st yt yp un [0..<length un] ([], sv) = Inr (los, sv1)"
    by (auto split: sum.splits)
  note facts = seed_loop_all [OF sl]
  from assms sl obtain means where m: "reduce_axis0 np_mean los = Inr means"
    by (auto split: sum.splits)
  from assms sl m obtain stds where s: "reduce_axis0 np_std los = Inr stds"
    by (auto split: sum.splits)
  from reduce_axis0_Inr [OF m, unfolded facts(1)]
  have rows: "seed_rows f mn st yt yp un \<noteq> []"
    and same: "\<forall>q\<in>set (seed_rows f mn st yt yp un).
                 length q = length (hd (seed_rows f mn st yt yp un))"
    and means: "means = columnwise np_mean (seed_rows f mn st yt yp un)"
    by blast+
  from reduce_axis0_Inr [OF s, unfolded facts(1)]
  have stds: "stds = columnwise np_std (seed_rows f mn st yt yp un)" by blast
  from rows show ne: "un \<noteq> []" by (auto simp: seed_rows_def)
  from facts(2) [OF ne] show st: "st \<noteq> 0" .
  from facts(3) show "\<forall>n<length un. seed_ok yt yp un n" .
  from same show "\<forall>q\<in>set (seed_rows f mn st yt yp un).
                 length q = length (hd (seed_rows f mn st yt yp un))" .
  from assms show "metric_loop mn st yt yp un ms
           (\<lparr>xs_dict = (xs_dict d)(nm \<mapsto> range_list mn (int (length (last un))) st),
             score_dict = (score_dict d)(nm \<mapsto> columnwise np_mean (seed_rows f mn st yt yp un)),
             score_std_dict =
               (score_std_dict d)(nm \<mapsto> columnwise np_std (seed_rows f mn st yt yp un))\<rparr>,
            Some (seed_sorted (yp ! (length un - 1)) (last un) (yt ! (length un - 1)))) = Inr r"
    using facts(5) [OF ne]
    by (simp add: sl m s means [symmetric] stds [symmetric] facts(4) [OF ne] py_range_def st)
qed

lemma metric_loop_Cons_success:
  assumes "un \<noteq> []" and "st \<noteq> 0" and "\<forall>n<length un. seed_ok yt yp un n"
    and "\<forall>q\<in>set (seed_rows f mn st yt yp un). length q = length (hd (seed_rows f mn st yt yp un))"
  shows "metric_loop mn st yt yp un ((nm, f) # ms) (d, sv) =
         metric_loop mn st yt yp un ms
           (\<lparr>xs_dict = (xs_dict d)(nm \<mapsto> range_list mn (int (length (last un))) st),
             score_dict = (score_dict d)(nm \<mapsto> columnwise np_mean (seed_rows f mn st yt yp un)),
             score_std_dict =
               (score_std_dict d)(nm \<mapsto> columnwise np_std (seed_rows f mn st yt yp un))\<rparr>,
            Some (seed_sorted (yp ! (length un - 1)) (last un) (yt ! (length un - 1))))"
proof -
  have all: "\<forall>n\<in>set [0..<length un]. seed_ok yt yp un n" using assms(3) by simp
  have sl: "seed_loop f mn st yt yp un [0..<length un] ([], sv) =
      Inr (seed_rows f mn st yt yp un,
           Some (seed_sorted (yp ! (length un - 1)) (last un) (yt ! (length un - 1))))"
    using seed_loop_success [OF assms(2) all, of f mn "[]" sv] assms(1)
    by (simp add: seed_rows_def last_conv_nth)
  have rows: "seed_rows f mn st yt yp un \<noteq> []" using assms(1) by (simp add: seed_rows_def)
  have len: "length (seed_sorted (yp ! (length un - 1)) (last un) (yt ! (length un - 1)))
           = length (last un)"
    using seed_loop_all(5) [OF sl assms(1)] .
  show ?thesis
    using len
    by (simp add: sl reduce_axis0_success [OF rows assms(4)] py_range_def assms(2))
qed

lemma metric_loop_untouched:
  assumes "metric_loop mn st yt yp un ms (d, sv) = Inr (d', sv')" and "nm \<notin> fst ` set ms"
  shows "xs_dict d' nm = xs_dict d nm \<and> score_dict d' nm = score_dict d nm
         \<and> score_std_dict d' nm = score_std_dict d nm"
  using assms
proof (induction ms arbitrary: d sv)
  case Nil
  then show ?case by simp
next
  case (Cons m ms)
  obtain nm' f where m: "m = (nm', f)" by (cases m)
  from Cons.prems(2) m have ne: "nm \<noteq> nm'" and rest: "nm \<notin> fst ` set ms" by auto
  from metric_loop_Cons_Inr(5) [OF Cons.prems(1) [unfolded m]] Cons.IH [OF _ rest] ne
  show ?case by fastforce
qed

lemma metric_loop_xs:
  assumes "metric_loop mn st yt yp un ms (d, sv) = Inr (d', sv')" and "nm \<in> fst ` set ms"
  shows "xs_dict d' nm = Some (range_list mn (int (length (last un))) st)"
  using assms
proof (induction ms arbitrary: d sv)
  case Nil
  then show ?case by simp
next
  case (Cons m ms)
  obtain nm' f where m: "m = (nm', f)" by (cases m)
  note step = metric_loop_Cons_Inr(5) [OF Cons.prems(1) [unfolded m]]
  show ?case
  proof (cases "nm \<in> fst ` set ms")
    case True
    from Cons.IH [OF step True] show ?thesis .
  next
    case False
    with Cons.prems(2) m have "nm = nm'" by auto
    with metric_loop_untouched [OF step False] show ?thesis by simp
  qed
qed

lemma metric_loop_scores:
  assumes "metric_loop mn st yt yp un ms (d, sv) = Inr (d', sv')"
    and "(nm, f) \<in> set ms" and "distinct (map fst ms)"
  shows "score_dict d' nm = Some (columnwise np_mean (seed_rows f mn st yt yp un))
         \<and> score_std_dict d' nm = Some (columnwise np_std (seed_rows f mn st yt yp un))"
  using assms
proof (induction ms arbitrary: d sv)
  case Nil
  then show ?case by simp
next
  case (Cons m ms)
  obtain nm' f' where m: "m = (nm', f')" by (cases m)
  note step = metric_loop_Cons_Inr(5) [OF Cons.prems(1) [unfolded m]]
  from Cons.prems(3) m have fresh: "nm' \<notin> fst ` set ms" and dist: "distinct (map fst ms)"
    by simp_all
  show ?case
  proof (cases "(nm, f) \<in> set ms")
    case True
    from Cons.IH [OF step True dist] show ?thesis .
  next
    case False
    with Cons.prems(2) m have eq: "nm = nm'" "f = f'" by auto
    with metric_loop_untouched [OF step] fresh show ?thesis by simp
  qed
qed

lemma metric_loop_requires:
  assumes "metric_loop mn st yt yp un ms (d, sv) = Inr r" and "ms \<noteq> []"
  shows "un \<noteq> [] \<and> st \<noteq> 0 \<and> (\<forall>n<length un. seed_ok yt yp un n)"
proof -
  from assms(2) obtain nm f ms' where "ms = (nm, f) # ms'" by (cases ms) auto
  with assms(1) metric_loop_Cons_Inr(1-3) [of mn st yt yp un nm f ms' d sv r]
  show ?thesis by blast
qed

lemma metric_loop_success:
  assumes "un \<noteq> []" and "st \<noteq> 0" and "\<forall>n<length un. seed_ok yt yp un n"
    and "\<forall>n<length un. length (range_list mn (int (length (un ! n))) st)
                        = length (range_list mn (int (length (un ! 0))) st)"
  shows "\<exists>r. metric_loop mn st yt yp un ms (d, sv) = Inr r"
proof (induction ms arbitrary: d sv)
  case Nil
  then show ?case by simp
next
  case (Cons m ms)
  obtain nm f where m: "m = (nm, f)" by (cases m)
  have len: "length (seed_scores f mn st (yp ! n) (un ! n) (yt ! n))
      = length (range_list mn (int (length (un ! 0))) st)" if "n < length un" for n
    using that assms(3,4) by (simp add: seed_scores_def seed_ok_def)
  have hd_rows: "hd (seed_rows f mn st yt yp un) = seed_scores f mn st (yp ! 0) (un ! 0) (yt ! 0)"
    using assms(1) by (simp add: seed_rows_def hd_map)
  have same: "\<forall>q\<in>set (seed_rows f mn st yt yp un).
      length q = length (hd (seed_rows f mn st yt yp un))"
  proof
    fix q assume "q \<in> set (seed_rows f mn st yt yp un)"
    then obtain n where n: "n < length un"
      and q: "q = seed_scores f mn st (yp ! n) (un ! n) (yt ! n)"
      by (auto simp: seed_rows_def)
    from assms(1) have "0 < length un" by simp
    from len [OF n] len [OF this] show "length q = length (hd (seed_rows f mn st yt yp un))"
      by (simp add: q hd_rows)
  qed
  have "metric_loop mn st yt yp un (m # ms) (d, sv) =
         metric_loop mn st yt yp un ms
           (\<lparr>xs_dict = (xs_dict d)(nm \<mapsto> range_list mn (int (length (last un))) st),
             score_dict = (score_dict d)(nm \<mapsto> columnwise np_mean (seed_rows f mn st yt yp un)),
             score_std_dict =
               (score_std_dict d)(nm \<mapsto> columnwise np_std (seed_rows f mn st yt yp un))\<rparr>,
            Some (seed_sorted (yp ! (length un - 1)) (last un) (yt ! (length un - 1))))"
    unfolding m by (rule metric_loop_Cons_success [OF assms(1-3) same])
  with Cons.IH show ?case by (simp only:)
qed

lemma ceil_div_less:
  assumes "0 < (s::int)"
  shows "k < (x + s - 1) div s \<longleftrightarrow> k * s < x"
proof -
  define q where "q = (x + s - 1) div s"
  define r where "r = (x + s - 1) mod s"
  have r: "0 \<le> r" "r < s" using assms by (simp_all add: r_def)
  have eq: "x + s - 1 = q * s + r" by (simp add: q_def r_def)
  show ?thesis
    unfolding q_def [symmetric]
  proof
    assume "k < q"
    then have "k + 1 \<le> q" by simp
    then have "(k + 1) * s \<le> q * s" using assms by (simp add: mult_right_mono)
    then show "k * s < x" using eq r by (simp add: algebra_simps)
  next
    assume less: "k * s < x"
    show "k < q"
    proof (rule ccontr)
      assume "\<not> k < q"
      then have "q * s \<le> k * s" using assms by (simp add: mult_right_mono)
      with less eq r show False by linarith
    qed
  qed
qed

lemma range_list_forward:
  assumes "0 < st"
  shows "range_list a b st = map (\<lambda>j. a + int j * st) [0..<nat ((b - a + st - 1) div st)]"
    and "j < nat ((b - a + st - 1) div st) \<longleftrightarrow> a + int j * st < b"
proof -
  show "range_list a b st = map (\<lambda>j. a + int j * st) [0..<nat ((b - a + st - 1) div st)]"
    using assms by (simp add: range_list_def)
  have "j < nat ((b - a + st - 1) div st) \<longleftrightarrow> int j < (b - a + st - 1) div st"
    by auto
  also have "\<dots> \<longleftrightarrow> int j * st < b - a"
    by (rule ceil_div_less [OF assms])
  finally show "j < nat ((b - a + st - 1) div st) \<longleftrightarrow> a + int j * st < b"
    by auto
qed

lemma range_list_bounds:
  assumes "0 < st" and "i \<in> set (range_list a b st)"
  shows "a \<le> i \<and> i < b"
proof -
  from assms(2) obtain j where j: "j < nat ((b - a + st - 1) div st)" and i: "i = a + int j * st"
    unfolding range_list_forward(1) [OF assms(1)] by auto
  from j have "a + int j * st < b" by (simp only: range_list_forward(2) [OF assms(1)])
  moreover have "0 \<le> int j * st" using assms(1) by simp
  ultimately show ?thesis using i by simp
qed

lemma py_prefix_nonneg: "0 \<le> i \<Longrightarrow> py_prefix i xs = take (nat i) xs"
  by (simp add: py_prefix_def)

lemma range_list_2_5_1: "range_list 2 5 1 = [2, 3, 4]"
  by (simp add: range_list_def upt_rec)

lemma get_incremental_loss_Inr:
  assumes "get_incremental_loss yt yp un ms mn st = Inr d"
  shows "\<exists>sv. metric_loop mn st yt yp un ms
           (\<lparr>xs_dict = Map.empty, score_dict = Map.empty, score_std_dict = Map.empty\<rparr>, None)
         = Inr (d, sv)"
  using assms by (auto simp: get_incremental_loss_def split: sum.splits)

lemma get_incremental_loss_success:
  assumes "un \<noteq> []" and "st \<noteq> 0" and "\<forall>n<length un. seed_ok yt yp un n"
    and "\<forall>n<length un. length (range_list mn (int (length (un ! n))) st)
                        = length (range_list mn (int (length (un ! 0))) st)"
  shows "\<exists>d. get_incremental_loss yt yp un ms mn st = Inr d"
proof -
  from metric_loop_success [OF assms] obtain r where
    "metric_loop mn st yt yp un ms
       (\<lparr>xs_dict = Map.empty, score_dict = Map.empty, score_std_dict = Map.empty\<rparr>, None) = Inr r"
    by blast
  then show ?thesis by (cases r) (simp add: get_incremental_loss_def)
qed

lemma seed_scores_take:
  assumes "make_df p u y = Inr df" and "0 \<le> mn" and "0 < st"
  shows "seed_scores f mn st p u y =
         map (\<lambda>i. f (map col_y (take (nat i) (sort_values df)))
                    (map col_y_pred (take (nat i) (sort_values df))))
           (range_list mn (int (length df)) st)"
proof -
  have "py_prefix i (sort_values df) = take (nat i) (sort_values df)"
    if "i \<in> set (range_list mn (int (length df)) st)" for i
    using range_list_bounds [OF assms(3) that] assms(2) by (simp add: py_prefix_nonneg)
  then show ?thesis
    by (simp add: seed_scores_def seed_sorted_eq [OF assms(1)] make_df_length [OF assms(1)]
        cong: map_cong)
qed

lemma prefixes_of_seed_run:
  assumes run: "seed_loop metric min_size step_size y_test y_pred uncertainty seeds (scores0, var0)
             = Inr (list_of_scores, var1)"
    and mn: "0 \<le> min_size" and st: "0 < step_size" and k: "k < length seeds"
  shows "\<exists>df K.
           make_df (y_pred ! (seeds ! k)) (uncertainty ! (seeds ! k)) (y_test ! (seeds ! k)) = Inr df
         \<and> sorted (map col_uncertainty (sort_values df)) \<and> mset (sort_values df) = mset df
         \<and> range_list min_size (int (length df)) step_size
             = map (\<lambda>j. min_size + int j * step_size) [0..<K]
         \<and> (\<forall>j. j < K \<longleftrightarrow> min_size + int j * step_size < int (length df))
         \<and> list_of_scores ! (length scores0 + k)
             = map (\<lambda>i. metric (map col_y (take (nat i) (sort_values df)))
                               (map col_y_pred (take (nat i) (sort_values df))))
                 (range_list min_size (int (length df)) step_size)
         \<and> (\<forall>i\<in>set (range_list min_size (int (length df)) step_size). nat i < length df)"
proof -
  let ?n = "seeds ! k"
  from seed_loop_Inr_D [OF run] k have "seed_ok y_test y_pred uncertainty ?n" by simp
  then obtain df where df: "make_df (y_pred ! ?n) (uncertainty ! ?n) (y_test ! ?n) = Inr df"
    using make_df_Inr_iff [of "y_pred ! ?n" "uncertainty ! ?n" "y_test ! ?n"]
    by (auto simp: seed_ok_def)
  let ?K = "nat ((int (length df) - min_size + step_size - 1) div step_size)"
  from seed_loop_Inr [OF run]
  have "list_of_scores = scores0 @ map (\<lambda>n. seed_scores metric min_size step_size
            (y_pred ! n) (uncertainty ! n) (y_test ! n)) seeds"
    by simp
  then have "list_of_scores ! (length scores0 + k)
      = seed_scores metric min_size step_size (y_pred ! ?n) (uncertainty ! ?n) (y_test ! ?n)"
    using k by (simp add: nth_append)
  then have scores: "list_of_scores ! (length scores0 + k)
      = map (\<lambda>i. metric (map col_y (take (nat i) (sort_values df)))
                        (map col_y_pred (take (nat i) (sort_values df))))
          (range_list min_size (int (length df)) step_size)"
    by (simp only: seed_scores_take [OF df mn st])
  have proper: "\<forall>i\<in>set (range_list min_size (int (length df)) step_size). nat i < length df"
  proof
    fix i assume "i \<in> set (range_list min_size (int (length df)) step_size)"
    from range_list_bounds [OF st this] mn show "nat i < length df" by linarith
  qed
  have steps: "\<forall>j. j < ?K \<longleftrightarrow> min_size + int j * step_size < int (length df)"
    using range_list_forward(2) [OF st] by blast
  from df sorted_sort_values mset_sort_values range_list_forward(1) [OF st] steps scores proper
  show ?thesis by blast
qed

lemma single_seed_ok:
  "length u = length p \<Longrightarrow> length y = length p \<Longrightarrow> \<forall>n<length [u]. seed_ok [y] [p] [u] n"
  by (simp add: seed_ok_def)

lemma five_points:
  assumes "length p = 5" "length u = 5" "length y = 5"
  shows "\<exists>d. get_incremental_loss [y] [p] [u] [(name, metric)] 2 1 = Inr d
             \<and> xs_dict d name = Some [2, 3, 4]"
proof -
  have ok: "\<forall>n<length [u]. seed_ok [y] [p] [u] n"
    using assms by (simp add: single_seed_ok)
  from get_incremental_loss_success [of "[u]" 1 "[y]" "[p]" 2 "[(name, metric)]", OF _ _ ok]
  obtain d where d: "get_incremental_loss [y] [p] [u] [(name, metric)] 2 1 = Inr d"
    by auto
  from get_incremental_loss_Inr [OF d] obtain sv where
    "metric_loop 2 1 [y] [p] [u] [(name, metric)]
           (\<lparr>xs_dict = Map.empty, score_dict = Map.empty, score_std_dict = Map.empty\<rparr>, None)
         = Inr (d, sv)" by blast
  from metric_loop_xs [OF this, of name] have "xs_dict d name = Some (range_list 2 5 1)"
    using assms by simp
  with d show ?thesis by (simp add: range_list_2_5_1)
qed


lemma seed_loop_rows:
  assumes "un \<noteq> []" and "st \<noteq> 0" and "\<forall>n<length un. seed_ok yt yp un n"
  shows "seed_loop f mn st yt yp un [0..<length un] ([], sv)
         = Inr (seed_rows f mn st yt yp un,
                Some (seed_sorted (yp ! (length un - 1)) (last un) (yt ! (length un - 1))))"
proof -
  have all: "\<forall>n\<in>set [0..<length un]. seed_ok yt yp un n" using assms(3) by simp
  show ?thesis
    using seed_loop_success [OF assms(2) all, of f mn "[]" sv] assms(1)
    by (simp add: seed_rows_def last_conv_nth)
qed

lemma metric_loop_rows_same:
  assumes "metric_loop mn st yt yp un ms (d, sv) = Inr r" and "(nm, f) \<in> set ms"
  shows "\<forall>q\<in>set (seed_rows f mn st yt yp un). length q = length (hd (seed_rows f mn st yt yp un))"
  using assms
proof (induction ms arbitrary: d sv)
  case Nil
  then show ?case by simp
next
  case (Cons m ms)
  obtain nm' f' where m: "m = (nm', f')" by (cases m)
  note here = metric_loop_Cons_Inr(4) [OF Cons.prems(1) [unfolded m]]
  note step = metric_loop_Cons_Inr(5) [OF Cons.prems(1) [unfolded m]]
  show ?case
  proof (cases "(nm, f) \<in> set ms")
    case True
    from Cons.IH [OF step True] show ?thesis .
  next
    case False
    with Cons.prems(2) m have "f = f'" by auto
    with here show ?thesis by simp
  qed
qed


lemma columnwise_single: "columnwise np_mean [row] = row"
proof -
  have "columnwise np_mean [row] = map (\<lambda>j. row ! j) [0..<length row]"
    by (simp add: columnwise_def np_mean_def)
  then show ?thesis by (simp add: map_nth)
qed


subsection \<open>The claims\<close>

text \<open>
  C4. In every seed run that the loop on line 210 completes, for a minimum size that is
  not negative and a positive step size: the rows are sorted by ascending uncertainty and
  are the rows of the data frame; the subset sizes are \<open>min_size + j * step_size\<close> for
  exactly those \<open>j\<close> for which this is less than the number of points; the score list of
  the run holds the metric on the first \<open>i\<close> sorted rows for each subset size \<open>i\<close>; and
  every subset size is less than the number of points, so the metric never sees all rows.
  On a single seed of five points with minimum size 2 and step 1 the function returns and
  the x-positions of a metric are 2, 3, 4.
\<close>

theorem seed_loop_prefixes:
  "(seed_loop metric min_size step_size y_test y_pred uncertainty seeds (scores0, var0)
      = Inr (list_of_scores, var1)
    \<and> 0 \<le> min_size \<and> 0 < step_size \<and> k < length seeds \<longrightarrow>
    (\<exists>df K.
       make_df (y_pred ! (seeds ! k)) (uncertainty ! (seeds ! k)) (y_test ! (seeds ! k)) = Inr df
     \<and> sorted (map col_uncertainty (sort_values df)) \<and> mset (sort_values df) = mset df
     \<and> range_list min_size (int (length df)) step_size
         = map (\<lambda>j. min_size + int j * step_size) [0..<K]
     \<and> (\<forall>j. j < K \<longleftrightarrow> min_size + int j * step_size < int (length df))
     \<and> list_of_scores ! (length scores0 + k)
         = map (\<lambda>i. metric (map col_y (take (nat i) (sort_values df)))
                           (map col_y_pred (take (nat i) (sort_values df))))
             (range_list min_size (int (length df)) step_size)
     \<and> (\<forall>i\<in>set (range_list min_size (int (length df)) step_size). nat i < length df)))
   \<and> (length p = 5 \<and> length u = 5 \<and> length y = 5 \<longrightarrow>
      (\<exists>d. get_incremental_loss [y] [p] [u] [(name, metric)] 2 1 = Inr d
           \<and> xs_dict d name = Some [2, 3, 4]))"
  using prefixes_of_seed_run [of metric min_size step_size y_test y_pred uncertainty seeds
      scores0 var0 list_of_scores var1 k]
    five_points [of p u y name metric]
  by blast


theorem seed_loop_prefixes_witness:
  "(\<exists>var1. seed_loop (\<lambda>y p. sum_list p) 2 1 [[1, 0, 1, 0, 0]]
        [[9 / 10, 2 / 10, 8 / 10, 6 / 10, 1 / 10]] [[1 / 10, 3 / 10, 2 / 10, 5 / 10, 4 / 10]]
        [0] ([], None) = Inr ([[17 / 10, 19 / 10, 2]], var1))
   \<and> (\<exists>df. make_df [9 / 10, 2 / 10, 8 / 10, 6 / 10, 1 / 10]
            [1 / 10, 3 / 10, 2 / 10, 5 / 10, 4 / 10] [1, 0, 1, 0, 0] = Inr df
          \<and> sorted (map col_uncertainty (sort_values df))
          \<and> range_list 2 (int (length df)) 1 = [2, 3, 4]
          \<and> map (\<lambda>i. sum_list (map col_y_pred (take (nat i) (sort_values df)))) [2, 3, 4]
              = [17 / 10, 19 / 10, 2])
   \<and> (\<exists>d. get_incremental_loss [[1, 0, 1, 0, 0]] [[9 / 10, 2 / 10, 8 / 10, 6 / 10, 1 / 10]]
          [[1 / 10, 3 / 10, 2 / 10, 5 / 10, 4 / 10]] [(''total'', \<lambda>y p. sum_list p)] 2 1 = Inr d
        \<and> xs_dict d ''total'' = Some [2, 3, 4])"
proof -
  let ?f = "\<lambda>(y :: real list) (p :: real list). sum_list p"
  let ?p = "[9 / 10, 2 / 10, 8 / 10, 6 / 10, 1 / 10 :: real]"
  let ?u = "[1 / 10, 3 / 10, 2 / 10, 5 / 10, 4 / 10 :: real]"
  let ?y = "[1, 0, 1, 0, 0 :: real]"
  have first: "\<exists>var1. seed_loop ?f 2 1 [?y] [?p] [?u] [0] ([], None)
      = Inr ([[17 / 10, 19 / 10, 2]], var1)"
    by (simp add: py_index_def make_df_def sort_values_def py_range_def
        range_list_def py_prefix_def upt_rec Let_def)
  then obtain var1 where
    run: "seed_loop ?f 2 1 [?y] [?p] [?u] [0] ([], None) = Inr ([[17 / 10, 19 / 10, 2]], var1)"
    by blast
  have k: "(0::nat) < length [0::nat]" by simp
  have mn: "(0::int) \<le> 2" and st: "(0::int) < 1" by simp_all
  have lens: "length ?p = 5 \<and> length ?u = 5 \<and> length ?y = 5" by simp
  note inst = seed_loop_prefixes [of ?f 2 1 "[?y]" "[?p]" "[?u]" "[0]" "[]" None
      "[[17 / 10, 19 / 10, 2]]" var1 0 ?p ?u ?y "''total''"]
  from inst [THEN conjunct1, THEN mp, OF conjI [OF run conjI [OF mn conjI [OF st k]]]]
  obtain df K where
    df: "make_df ([?p] ! ([0] ! 0)) ([?u] ! ([0] ! 0)) ([?y] ! ([0] ! 0)) = Inr df"
    and srt: "sorted (map col_uncertainty (sort_values df))"
    and sc: "[[17 / 10, 19 / 10, 2]] ! (length ([] :: real list list) + 0)
         = map (\<lambda>i. ?f (map col_y (take (nat i) (sort_values df)))
                       (map col_y_pred (take (nat i) (sort_values df))))
             (range_list 2 (int (length df)) 1)"
    by blast
  from df have df': "make_df ?p ?u ?y = Inr df" by simp
  have len5: "length df = 5"
    using make_df_length [OF df'] by simp
  have r: "range_list 2 (int (length df)) 1 = [2, 3, 4]"
    unfolding len5 by (simp add: range_list_def upt_rec)
  have sums: "map (\<lambda>i. sum_list (map col_y_pred (take (nat i) (sort_values df)))) [2, 3, 4]
              = [17 / 10, 19 / 10, 2]"
    using sc unfolding r by simp
  have second: "\<exists>df. make_df ?p ?u ?y = Inr df
          \<and> sorted (map col_uncertainty (sort_values df))
          \<and> range_list 2 (int (length df)) 1 = [2, 3, 4]
          \<and> map (\<lambda>i. sum_list (map col_y_pred (take (nat i) (sort_values df)))) [2, 3, 4]
              = [17 / 10, 19 / 10, 2]"
  proof (intro exI conjI)
    show "make_df ?p ?u ?y = Inr df" by (rule df')
    show "sorted (map col_uncertainty (sort_values df))" by (rule srt)
    show "range_list 2 (int (length df)) 1 = [2, 3, 4]" by (rule r)
    show "map (\<lambda>i. sum_list (map col_y_pred (take (nat i) (sort_values df)))) [2, 3, 4]
              = [17 / 10, 19 / 10, 2]" by (rule sums)
  qed
  note third = inst [THEN conjunct2, THEN mp, OF lens]
  show ?thesis by (rule conjI [OF first conjI [OF second third]])
qed

text \<open>
  C5. A call that returns stores the entropy of the raw predicted probabilities as the
  uncertainty, with and without calibration. The stored prediction is column 1 of the raw
  probabilities when \<open>calibrate\<close> is false, and the Platt-scaled column 1 when it is true.
  When the call returns for both values of the flag, the stored uncertainties are equal.
\<close>

theorem add_results_uncertainty_from_raw:
  "(add_results entropy platt_scale self y_pred name y_pred_val y_val False = Inr c1 \<longrightarrow>
      (\<exists>unc raw. entropy y_pred = Inr unc \<and> column1 y_pred = Inr raw
         \<and> dd_get (uncertainties c1) name = dd_get (uncertainties self) name @ [unc]
         \<and> dd_get (predictions c1) name = dd_get (predictions self) name @ [raw]))
   \<and> (add_results entropy platt_scale self y_pred name y_pred_val y_val True = Inr c2 \<longrightarrow>
      (\<exists>unc raw pv raw_val calibrated. entropy y_pred = Inr unc \<and> column1 y_pred = Inr raw
         \<and> y_pred_val = Some pv \<and> column1 pv = Inr raw_val
         \<and> platt_scale raw raw_val y_val = Inr calibrated
         \<and> dd_get (uncertainties c2) name = dd_get (uncertainties self) name @ [unc]
         \<and> dd_get (predictions c2) name = dd_get (predictions self) name @ [calibrated]))
   \<and> (add_results entropy platt_scale self y_pred name y_pred_val y_val False = Inr c1
       \<and> add_results entropy platt_scale self y_pred name y_pred_val y_val True = Inr c2 \<longrightarrow>
      uncertainties c1 = uncertainties c2)"
proof (intro conjI impI)
  assume "add_results entropy platt_scale self y_pred name y_pred_val y_val False = Inr c1"
  from add_results_Inr [OF this]
  show "\<exists>unc raw. entropy y_pred = Inr unc \<and> column1 y_pred = Inr raw
         \<and> dd_get (uncertainties c1) name = dd_get (uncertainties self) name @ [unc]
         \<and> dd_get (predictions c1) name = dd_get (predictions self) name @ [raw]"
    by (auto simp: dd_get_dd_append)
next
  assume "add_results entropy platt_scale self y_pred name y_pred_val y_val True = Inr c2"
  from add_results_Inr [OF this]
  show "\<exists>unc raw pv raw_val calibrated. entropy y_pred = Inr unc \<and> column1 y_pred = Inr raw
         \<and> y_pred_val = Some pv \<and> column1 pv = Inr raw_val
         \<and> platt_scale raw raw_val y_val = Inr calibrated
         \<and> dd_get (uncertainties c2) name = dd_get (uncertainties self) name @ [unc]
         \<and> dd_get (predictions c2) name = dd_get (predictions self) name @ [calibrated]"
    by (auto simp: dd_get_dd_append)
next
  assume "add_results entropy platt_scale self y_pred name y_pred_val y_val False = Inr c1
       \<and> add_results entropy platt_scale self y_pred name y_pred_val y_val True = Inr c2"
  then have a: "add_results entropy platt_scale self y_pred name y_pred_val y_val False = Inr c1"
    and b: "add_results entropy platt_scale self y_pred name y_pred_val y_val True = Inr c2"
    by simp_all
  from add_results_Inr [OF a] add_results_Inr [OF b]
  show "uncertainties c1 = uncertainties c2" by auto
qed


theorem add_results_uncertainty_from_raw_witness:
  "add_results (\<lambda>a. Inr (map (\<lambda>r. 1 - (\<Sum>q\<leftarrow>r. q * q)) a)) (\<lambda>x xv yv. Inr (map (\<lambda>q. q / 2) x))
      ResultContainer_init [[3 / 4, 1 / 4], [1 / 10, 9 / 10]] ''mlp''
      (Some [[1 / 2, 1 / 2]]) (Some [1]) False
    = Inr \<lparr>uncertainties = [''mlp'' \<mapsto> [[3 / 8, 18 / 100]]],
           predictions = [''mlp'' \<mapsto> [[1 / 4, 9 / 10]]]\<rparr>
   \<and> add_results (\<lambda>a. Inr (map (\<lambda>r. 1 - (\<Sum>q\<leftarrow>r. q * q)) a)) (\<lambda>x xv yv. Inr (map (\<lambda>q. q / 2) x))
      ResultContainer_init [[3 / 4, 1 / 4], [1 / 10, 9 / 10]] ''mlp''
      (Some [[1 / 2, 1 / 2]]) (Some [1]) True
    = Inr \<lparr>uncertainties = [''mlp'' \<mapsto> [[3 / 8, 18 / 100]]],
           predictions = [''mlp'' \<mapsto> [[1 / 8, 9 / 20]]]\<rparr>
   \<and> uncertainties \<lparr>uncertainties = [''mlp'' \<mapsto> [[3 / 8, 18 / 100]]],
           predictions = [''mlp'' \<mapsto> [[1 / 4, 9 / 10 :: real]]]\<rparr>
     = uncertainties \<lparr>uncertainties = [''mlp'' \<mapsto> [[3 / 8, 18 / 100]]],
           predictions = [''mlp'' \<mapsto> [[1 / 8, 9 / 20 :: real]]]\<rparr>"
proof -
  let ?e = "\<lambda>a :: real list list. (Inr (map (\<lambda>r. 1 - (\<Sum>q\<leftarrow>r. q * q)) a) :: error + real list)"
  let ?p = "\<lambda>(x :: real list) (xv :: real list) (yv :: real list option).
              (Inr (map (\<lambda>q. q / 2) x) :: error + real list)"
  let ?y = "[[3 / 4, 1 / 4], [1 / 10, 9 / 10 :: real]]"
  let ?c1 = "\<lparr>uncertainties = [''mlp'' \<mapsto> [[3 / 8, 18 / 100 :: real]]],
           predictions = [''mlp'' \<mapsto> [[1 / 4, 9 / 10 :: real]]]\<rparr>"
  let ?c2 = "\<lparr>uncertainties = [''mlp'' \<mapsto> [[3 / 8, 18 / 100 :: real]]],
           predictions = [''mlp'' \<mapsto> [[1 / 8, 9 / 20 :: real]]]\<rparr>"
  have a: "add_results ?e ?p ResultContainer_init ?y ''mlp'' (Some [[1 / 2, 1 / 2]]) (Some [1]) False
      = Inr ?c1"
    by (simp add: add_results_def column1_def ResultContainer_init_def dd_append_def dd_get_def)
  have b: "add_results ?e ?p ResultContainer_init ?y ''mlp'' (Some [[1 / 2, 1 / 2]]) (Some [1]) True
      = Inr ?c2"
    by (simp add: add_results_def column1_def ResultContainer_init_def dd_append_def dd_get_def)
  have "uncertainties ?c1 = uncertainties ?c2"
    using add_results_uncertainty_from_raw [of ?e ?p ResultContainer_init ?y "''mlp''"
        "Some [[1 / 2, 1 / 2]]" "Some [1]" ?c1 ?c2] a b
    by blast
  with a b show ?thesis by blast
qed




text \<open>
  C7. When \<open>get_incremental_loss\<close> returns, the score list of a metric holds at index
  \<open>j\<close> the arithmetic mean, over the seeds, of the j-th score of each seed run of that
  metric, and the spread list holds their standard deviation with divisor the number of
  seeds (metric names being distinct, so that no later metric overwrites the entry). For
  the two score rows 0.8, 0.9 and 0.6, 0.7 the means are 0.7, 0.8 and the standard
  deviations 0.1, 0.1.
\<close>

theorem scores_mean_and_std_over_seeds:
  "(get_incremental_loss y_test y_pred uncertainty metrics min_size step_size = Inr d
    \<and> (name, metric) \<in> set metrics \<and> distinct (map fst metrics) \<longrightarrow>
    (\<exists>list_of_scores var.
       seed_loop metric min_size step_size y_test y_pred uncertainty [0..<length uncertainty]
         ([], None) = Inr (list_of_scores, var)
     \<and> length list_of_scores = length uncertainty
     \<and> (\<forall>q\<in>set list_of_scores. length q = length (hd list_of_scores))
     \<and> score_dict d name
         = Some (map (\<lambda>j. np_mean (map (\<lambda>q. q ! j) list_of_scores))
                   [0..<length (hd list_of_scores)])
     \<and> score_std_dict d name
         = Some (map (\<lambda>j. np_std (map (\<lambda>q. q ! j) list_of_scores))
                   [0..<length (hd list_of_scores)])))
   \<and> np_mean vs = sum_list vs / real (length vs)
   \<and> np_std vs = sqrt (sum_list (map (\<lambda>v. (v - sum_list vs / real (length vs))\<^sup>2) vs)
                         / real (length vs))
   \<and> reduce_axis0 np_mean [[8 / 10, 9 / 10], [6 / 10, 7 / 10]] = Inr [7 / 10, 8 / 10]
   \<and> reduce_axis0 np_std [[8 / 10, 9 / 10], [6 / 10, 7 / 10]] = Inr [1 / 10, 1 / 10]"
proof (intro conjI impI)
  assume "get_incremental_loss y_test y_pred uncertainty metrics min_size step_size = Inr d
    \<and> (name, metric) \<in> set metrics \<and> distinct (map fst metrics)"
  then have run: "get_incremental_loss y_test y_pred uncertainty metrics min_size step_size = Inr d"
    and mem: "(name, metric) \<in> set metrics" and dist: "distinct (map fst metrics)"
    by simp_all
  from get_incremental_loss_Inr [OF run] obtain sv where
    ml: "metric_loop min_size step_size y_test y_pred uncertainty metrics
           (\<lparr>xs_dict = Map.empty, score_dict = Map.empty, score_std_dict = Map.empty\<rparr>, None)
         = Inr (d, sv)" by blast
  from mem have "metrics \<noteq> []" by auto
  from metric_loop_requires [OF ml this]
  have ne: "uncertainty \<noteq> []" and st: "step_size \<noteq> 0"
    and ok: "\<forall>n<length uncertainty. seed_ok y_test y_pred uncertainty n"
    by simp_all
  let ?rows = "seed_rows metric min_size step_size y_test y_pred uncertainty"
  note sl = seed_loop_rows [OF ne st ok, of metric min_size None]
  note sc = metric_loop_scores [OF ml mem dist]
  have same: "\<forall>q\<in>set ?rows. length q = length (hd ?rows)"
    by (rule metric_loop_rows_same [OF ml mem])
  have len: "length ?rows = length uncertainty" by (simp add: seed_rows_def)
  from sl len same sc
  show "\<exists>list_of_scores var.
       seed_loop metric min_size step_size y_test y_pred uncertainty [0..<length uncertainty]
         ([], None) = Inr (list_of_scores, var)
     \<and> length list_of_scores = length uncertainty
     \<and> (\<forall>q\<in>set list_of_scores. length q = length (hd list_of_scores))
     \<and> score_dict d name
         = Some (map (\<lambda>j. np_mean (map (\<lambda>q. q ! j) list_of_scores))
                   [0..<length (hd list_of_scores)])
     \<and> score_std_dict d name
         = Some (map (\<lambda>j. np_std (map (\<lambda>q. q ! j) list_of_scores))
                   [0..<length (hd list_of_scores)])"
    unfolding columnwise_def by blast
next
  show "np_mean vs = sum_list vs / real (length vs)" by (simp add: np_mean_def)
  show "np_std vs = sqrt (sum_list (map (\<lambda>v. (v - sum_list vs / real (length vs))\<^sup>2) vs)
                         / real (length vs))"
    by (simp add: np_std_def np_mean_def)
  show "reduce_axis0 np_mean [[8 / 10, 9 / 10], [6 / 10, 7 / 10]] = Inr [7 / 10, 8 / 10]"
    by (simp add: np_mean_def upt_rec)
  have root: "sqrt (1 / 100) = 1 / 10"
    by (rule real_sqrt_unique) (simp_all add: power2_eq_square)
  show "reduce_axis0 np_std [[8 / 10, 9 / 10], [6 / 10, 7 / 10]] = Inr [1 / 10, 1 / 10]"
    using root by (simp add: np_std_def np_mean_def upt_rec power2_eq_square)
qed

theorem scores_mean_and_std_over_seeds_witness:
  "get_incremental_loss [[1, 0, 1], [1, 0, 1]]
      [[8 / 10, 5 / 10, 1 / 10], [1 / 10, 6 / 10, 2 / 10]]
      [[1 / 10, 3 / 10, 2 / 10], [2 / 10, 1 / 10, 3 / 10]]
      [(''total'', \<lambda>y p. sum_list p)] 1 1
    = Inr \<lparr>xs_dict = [''total'' \<mapsto> [1, 2]], score_dict = [''total'' \<mapsto> [7 / 10, 8 / 10]],
           score_std_dict = [''total'' \<mapsto> [1 / 10, 1 / 10]]\<rparr>
   \<and> (\<exists>list_of_scores var.
        seed_loop (\<lambda>y p. sum_list p) 1 1 [[1, 0, 1], [1, 0, 1]]
          [[8 / 10, 5 / 10, 1 / 10], [1 / 10, 6 / 10, 2 / 10]]
          [[1 / 10, 3 / 10, 2 / 10], [2 / 10, 1 / 10, 3 / 10]] [0..<2] ([], None)
        = Inr (list_of_scores, var)
      \<and> length list_of_scores = 2
      \<and> map (\<lambda>j. np_mean (map (\<lambda>q. q ! j) list_of_scores)) [0..<length (hd list_of_scores)]
          = [7 / 10, 8 / 10]
      \<and> map (\<lambda>j. np_std (map (\<lambda>q. q ! j) list_of_scores)) [0..<length (hd list_of_scores)]
          = [1 / 10, 1 / 10])"
proof -
  let ?f = "\<lambda>(y :: real list) (p :: real list). sum_list p"
  let ?yt = "[[1, 0, 1], [1, 0, 1 :: real]]"
  let ?yp = "[[8 / 10, 5 / 10, 1 / 10], [1 / 10, 6 / 10, 2 / 10 :: real]]"
  let ?un = "[[1 / 10, 3 / 10, 2 / 10], [2 / 10, 1 / 10, 3 / 10 :: real]]"
  let ?d = "\<lparr>xs_dict = [''total'' \<mapsto> [1, 2]], score_dict = [''total'' \<mapsto> [7 / 10, 8 / 10 :: real]],
           score_std_dict = [''total'' \<mapsto> [1 / 10, 1 / 10 :: real]]\<rparr>"
  have root: "sqrt (1 / 100) = 1 / 10"
    by (rule real_sqrt_unique) (simp_all add: power2_eq_square)
  have run: "get_incremental_loss ?yt ?yp ?un [(''total'', ?f)] 1 1 = Inr ?d"
    by (simp add: get_incremental_loss_def py_index_def make_df_def sort_values_def py_range_def
        range_list_def py_prefix_def np_mean_def np_std_def upt_rec Let_def power2_eq_square root)
  have mem: "(''total'', ?f) \<in> set [(''total'', ?f)]" by simp
  have dist: "distinct (map fst [(''total'', ?f)])" by simp
  from scores_mean_and_std_over_seeds [of ?yt ?yp ?un "[(''total'', ?f)]" 1 1 ?d "''total''" ?f]
    run mem dist
  obtain list_of_scores var where
    sl: "seed_loop ?f 1 1 ?yt ?yp ?un [0..<length ?un] ([], None) = Inr (list_of_scores, var)"
    and len: "length list_of_scores = length ?un"
    and m: "score_dict ?d ''total''
         = Some (map (\<lambda>j. np_mean (map (\<lambda>q. q ! j) list_of_scores))
                   [0..<length (hd list_of_scores)])"
    and s: "score_std_dict ?d ''total''
         = Some (map (\<lambda>j. np_std (map (\<lambda>q. q ! j) list_of_scores))
                   [0..<length (hd list_of_scores)])"
    by blast
  have two: "[0..<length ?un] = [0..<2]" by (simp add: upt_rec)
  have means: "map (\<lambda>j. np_mean (map (\<lambda>q. q ! j) list_of_scores))
          [0..<length (hd list_of_scores)] = [7 / 10, 8 / 10]"
    using m by simp
  have stds: "map (\<lambda>j. np_std (map (\<lambda>q. q ! j) list_of_scores))
          [0..<length (hd list_of_scores)] = [1 / 10, 1 / 10]"
    using s by simp
  have len2: "length list_of_scores = 2" using len by simp
  have "\<exists>list_of_scores var.
        seed_loop ?f 1 1 ?yt ?yp ?un [0..<2] ([], None) = Inr (list_of_scores, var)
      \<and> length list_of_scores = 2
      \<and> map (\<lambda>j. np_mean (map (\<lambda>q. q ! j) list_of_scores)) [0..<length (hd list_of_scores)]
          = [7 / 10, 8 / 10]
      \<and> map (\<lambda>j. np_std (map (\<lambda>q. q ! j) list_of_scores)) [0..<length (hd list_of_scores)]
          = [1 / 10, 1 / 10]"
  proof (intro exI conjI)
    show "seed_loop ?f 1 1 ?yt ?yp ?un [0..<2] ([], None) = Inr (list_of_scores, var)"
      by (rule sl [unfolded two])
    show "length list_of_scores = 2" by (rule len2)
    show "map (\<lambda>j. np_mean (map (\<lambda>q. q ! j) list_of_scores))
          [0..<length (hd list_of_scores)] = [7 / 10, 8 / 10]" by (rule means)
    show "map (\<lambda>j. np_std (map (\<lambda>q. q ! j) list_of_scores))
          [0..<length (hd list_of_scores)] = [1 / 10, 1 / 10]" by (rule stds)
  qed
  with run show ?thesis by (rule conjI)
qed


text \<open>
  C8. For a single seed and a metric that is 1 on every prefix of the sorted rows that the
  loop evaluates, \<open>get_incremental_loss\<close> returns, and the score list of that metric is 1
  at every subset size.
\<close>

theorem single_seed_constant_accuracy:
  assumes "make_df p u y = Inr df" and "step_size \<noteq> 0"
    and "(name, metric) \<in> set metrics" and "distinct (map fst metrics)"
    and "\<forall>i\<in>set (range_list min_size (int (length df)) step_size).
           metric (map col_y (py_prefix i (sort_values df)))
                  (map col_y_pred (py_prefix i (sort_values df))) = 1"
  shows "\<exists>d. get_incremental_loss [y] [p] [u] metrics min_size step_size = Inr d
           \<and> xs_dict d name = Some (range_list min_size (int (length df)) step_size)
           \<and> score_dict d name
               = Some (map (\<lambda>i. 1) (range_list min_size (int (length df)) step_size))"
proof -
  from assms(1) have lens: "length u = length p" "length y = length p"
    using make_df_Inr_iff [of p u y] by auto
  have ok: "\<forall>n<length [u]. seed_ok [y] [p] [u] n"
    using lens by (simp add: single_seed_ok)
  from get_incremental_loss_success [of "[u]" step_size "[y]" "[p]" min_size metrics,
      OF _ assms(2) ok]
  obtain d where d: "get_incremental_loss [y] [p] [u] metrics min_size step_size = Inr d"
    by auto
  from get_incremental_loss_Inr [OF d] obtain sv where
    ml: "metric_loop min_size step_size [y] [p] [u] metrics
           (\<lparr>xs_dict = Map.empty, score_dict = Map.empty, score_std_dict = Map.empty\<rparr>, None)
         = Inr (d, sv)" by blast
  have len: "length df = length p" by (rule make_df_length [OF assms(1)])
  from assms(3) have "name \<in> fst ` set metrics" by force
  from metric_loop_xs [OF ml this]
  have xs: "xs_dict d name = Some (range_list min_size (int (length df)) step_size)"
    using lens len by simp
  have row: "seed_scores metric min_size step_size p u y
      = map (\<lambda>i. 1) (range_list min_size (int (length df)) step_size)"
    using assms(5)
    by (simp add: seed_scores_def seed_sorted_eq [OF assms(1)] len cong: map_cong)
  have rows: "seed_rows metric min_size step_size [y] [p] [u]
      = [map (\<lambda>i. 1) (range_list min_size (int (length df)) step_size)]"
    by (simp add: seed_rows_def row)
  from metric_loop_scores [OF ml assms(3,4)]
  have "score_dict d name = Some (map (\<lambda>i. 1) (range_list min_size (int (length df)) step_size))"
    by (simp add: rows columnwise_single)
  with d xs show ?thesis by blast
qed


theorem single_seed_constant_accuracy_witness:
  "make_df [9 / 10, 2 / 10, 8 / 10] [1 / 10, 3 / 10, 2 / 10] [1, 0, 1]
    = Inr [\<lparr>col_y_pred = 9 / 10, col_minimum_y_pred = 1 / 10, col_uncertainty = 1 / 10, col_y = 1\<rparr>,
           \<lparr>col_y_pred = 2 / 10, col_minimum_y_pred = 2 / 10, col_uncertainty = 3 / 10, col_y = 0\<rparr>,
           \<lparr>col_y_pred = 8 / 10, col_minimum_y_pred = 2 / 10, col_uncertainty = 2 / 10, col_y = 1\<rparr>]
   \<and> (\<exists>d. get_incremental_loss [[1, 0, 1]] [[9 / 10, 2 / 10, 8 / 10]] [[1 / 10, 3 / 10, 2 / 10]]
          [(''accuracy'', \<lambda>y p. real (length (filter (\<lambda>(a, b). (if 1 / 2 \<le> b then 1 else 0) = a)
               (zip y p))) / real (length y))] 1 1 = Inr d
        \<and> xs_dict d ''accuracy'' = Some [1, 2]
        \<and> score_dict d ''accuracy'' = Some [1, 1])"
proof -
  let ?f = "\<lambda>(y :: real list) (p :: real list).
      real (length (filter (\<lambda>(a, b). (if 1 / 2 \<le> b then 1 else 0) = a) (zip y p)))
        / real (length y)"
  let ?p = "[9 / 10, 2 / 10, 8 / 10 :: real]"
  let ?u = "[1 / 10, 3 / 10, 2 / 10 :: real]"
  let ?y = "[1, 0, 1 :: real]"
  let ?df = "[\<lparr>col_y_pred = 9 / 10, col_minimum_y_pred = 1 / 10, col_uncertainty = 1 / 10, col_y = 1\<rparr>,
           \<lparr>col_y_pred = 2 / 10, col_minimum_y_pred = 2 / 10, col_uncertainty = 3 / 10, col_y = 0\<rparr>,
           \<lparr>col_y_pred = 8 / 10, col_minimum_y_pred = 2 / 10, col_uncertainty = 2 / 10, col_y = (1::real)\<rparr>]"
  have df: "make_df ?p ?u ?y = Inr ?df" by (simp add: make_df_def)
  have r: "range_list 1 (int (length ?df)) 1 = [1, 2]"
    by (simp add: range_list_def upt_rec)
  have acc: "\<forall>i\<in>set (range_list 1 (int (length ?df)) 1).
           ?f (map col_y (py_prefix i (sort_values ?df)))
              (map col_y_pred (py_prefix i (sort_values ?df))) = 1"
    unfolding r by (simp add: sort_values_def py_prefix_def)
  have mem: "(''accuracy'', ?f) \<in> set [(''accuracy'', ?f)]" by simp
  have dist: "distinct (map fst [(''accuracy'', ?f)])" by simp
  have st: "(1::int) \<noteq> 0" by simp
  from single_seed_constant_accuracy [OF df st mem dist acc] r df
  show ?thesis by simp
qed


text \<open>
  C10. Whenever \<open>get_incremental_loss\<close> returns, the x-positions of every metric are
  \<open>range(min_size, n, step_size)\<close> for the number \<open>n\<close> of points of the last seed: two
  inputs whose last seeds have the same number of points get the same x-positions, whatever
  their earlier seeds are.
\<close>

theorem positions_from_last_seed:
  "(get_incremental_loss y_test y_pred uncertainty metrics min_size step_size = Inr d
    \<and> (name, metric) \<in> set metrics \<longrightarrow>
      uncertainty \<noteq> []
    \<and> py_range min_size (int (length (last uncertainty))) step_size
        = Inr (range_list min_size (int (length (last uncertainty))) step_size)
    \<and> xs_dict d name = Some (range_list min_size (int (length (last uncertainty))) step_size))
   \<and> (get_incremental_loss y_test y_pred uncertainty metrics min_size step_size = Inr d
      \<and> get_incremental_loss y_test' y_pred' uncertainty' metrics min_size step_size = Inr d'
      \<and> length (last uncertainty') = length (last uncertainty)
      \<and> (name, metric) \<in> set metrics \<longrightarrow>
      xs_dict d' name = xs_dict d name)"
proof -
  have one: "uncertainty \<noteq> []
    \<and> py_range min_size (int (length (last uncertainty))) step_size
        = Inr (range_list min_size (int (length (last uncertainty))) step_size)
    \<and> xs_dict d name = Some (range_list min_size (int (length (last uncertainty))) step_size)"
    if run: "get_incremental_loss y_test y_pred uncertainty metrics min_size step_size = Inr d"
      and mem: "(name, metric) \<in> set metrics"
    for y_test y_pred uncertainty d
  proof -
    from get_incremental_loss_Inr [OF run] obtain sv where
      ml: "metric_loop min_size step_size y_test y_pred uncertainty metrics
             (\<lparr>xs_dict = Map.empty, score_dict = Map.empty, score_std_dict = Map.empty\<rparr>, None)
           = Inr (d, sv)" by blast
    from mem have ne: "metrics \<noteq> []" and nm: "name \<in> fst ` set metrics" by force+
    from metric_loop_requires [OF ml ne] metric_loop_xs [OF ml nm]
    show ?thesis by (simp add: py_range_def)
  qed
  show ?thesis
  proof (intro conjI impI)
    assume h: "get_incremental_loss y_test y_pred uncertainty metrics min_size step_size = Inr d
      \<and> get_incremental_loss y_test' y_pred' uncertainty' metrics min_size step_size = Inr d'
      \<and> length (last uncertainty') = length (last uncertainty)
      \<and> (name, metric) \<in> set metrics"
    with one [of y_test y_pred uncertainty d] one [of y_test' y_pred' uncertainty' d']
    show "xs_dict d' name = xs_dict d name" by simp
  qed (use one in blast)+
qed

theorem positions_from_last_seed_witness:
  "get_incremental_loss [[1, 0, 1], [1, 0, 1, 0]]
      [[9 / 10, 2 / 10, 8 / 10], [6 / 10, 1 / 10, 7 / 10, 3 / 10]]
      [[1 / 10, 3 / 10, 2 / 10], [2 / 10, 1 / 10, 4 / 10, 3 / 10]]
      [(''total'', \<lambda>y p. sum_list p)] 2 2
    = Inr \<lparr>xs_dict = [''total'' \<mapsto> [2]], score_dict = [''total'' \<mapsto> [12 / 10]],
           score_std_dict = [''total'' \<mapsto> [5 / 10]]\<rparr>
   \<and> get_incremental_loss [[1, 0, 1, 0]] [[6 / 10, 1 / 10, 7 / 10, 3 / 10]]
      [[2 / 10, 1 / 10, 4 / 10, 3 / 10]] [(''total'', \<lambda>y p. sum_list p)] 2 2
    = Inr \<lparr>xs_dict = [''total'' \<mapsto> [2]], score_dict = [''total'' \<mapsto> [7 / 10]],
           score_std_dict = [''total'' \<mapsto> [0]]\<rparr>
   \<and> py_range 2 (int (length (last [[1 / 10, 3 / 10, 2 / 10], [2 / 10, 1 / 10, 4 / 10, 3 / 10 :: real]]))) 2
      = Inr [2]
   \<and> xs_dict \<lparr>xs_dict = [''total'' \<mapsto> [2]], score_dict = [''total'' \<mapsto> [7 / 10 :: real]],
           score_std_dict = [''total'' \<mapsto> [0 :: real]]\<rparr> ''total''
     = xs_dict \<lparr>xs_dict = [''total'' \<mapsto> [2]], score_dict = [''total'' \<mapsto> [12 / 10 :: real]],
           score_std_dict = [''total'' \<mapsto> [5 / 10 :: real]]\<rparr> ''total''"
proof -
  let ?f = "\<lambda>(y :: real list) (p :: real list). sum_list p"
  let ?yt = "[[1, 0, 1], [1, 0, 1, 0 :: real]]"
  let ?yp = "[[9 / 10, 2 / 10, 8 / 10], [6 / 10, 1 / 10, 7 / 10, 3 / 10 :: real]]"
  let ?un = "[[1 / 10, 3 / 10, 2 / 10], [2 / 10, 1 / 10, 4 / 10, 3 / 10 :: real]]"
  let ?d = "\<lparr>xs_dict = [''total'' \<mapsto> [2]], score_dict = [''total'' \<mapsto> [12 / 10 :: real]],
           score_std_dict = [''total'' \<mapsto> [5 / 10 :: real]]\<rparr>"
  let ?d' = "\<lparr>xs_dict = [''total'' \<mapsto> [2]], score_dict = [''total'' \<mapsto> [7 / 10 :: real]],
           score_std_dict = [''total'' \<mapsto> [0 :: real]]\<rparr>"
  have root: "sqrt (1 / 4) = 1 / 2"
    by (rule real_sqrt_unique) (simp_all add: power2_eq_square)
  have a: "get_incremental_loss ?yt ?yp ?un [(''total'', ?f)] 2 2 = Inr ?d"
    by (simp add: get_incremental_loss_def py_index_def make_df_def sort_values_def py_range_def
        range_list_def py_prefix_def np_mean_def np_std_def upt_rec Let_def power2_eq_square root)
  have b: "get_incremental_loss [[1, 0, 1, 0]] [[6 / 10, 1 / 10, 7 / 10, 3 / 10]]
      [[2 / 10, 1 / 10, 4 / 10, 3 / 10]] [(''total'', ?f)] 2 2 = Inr ?d'"
    by (simp add: get_incremental_loss_def py_index_def make_df_def sort_values_def py_range_def
        range_list_def py_prefix_def np_mean_def np_std_def upt_rec Let_def power2_eq_square)
  have mem: "(''total'', ?f) \<in> set [(''total'', ?f)]" by simp
  from positions_from_last_seed [of ?yt ?yp ?un "[(''total'', ?f)]" 2 2 ?d "''total''" ?f] a mem
  have "py_range 2 (int (length (last ?un))) 2 = Inr (range_list 2 (int (length (last ?un))) 2)"
    by blast
  then have "py_range 2 (int (length (last ?un))) 2 = Inr [2]"
    by (simp add: range_list_def upt_rec)
  moreover have "xs_dict ?d' ''total'' = xs_dict ?d ''total''"
    using positions_from_last_seed [of ?yt ?yp ?un "[(''total'', ?f)]" 2 2 ?d "''total''" ?f
        "[[1, 0, 1, 0]]" "[[6 / 10, 1 / 10, 7 / 10, 3 / 10]]" "[[2 / 10, 1 / 10, 4 / 10, 3 / 10]]" ?d']
      a b mem
    by simp
  ultimately show ?thesis using a b by blast
qed

end
